theory Spec2Isabelle
  imports Complex_Main
begin

section \<open>Time, durations and integer arithmetic of the Go runtime\<close>

text \<open>
  An instant (\<^verbatim>\<open>time.Time\<close>) is its number of nanoseconds since the Unix epoch; a
  \<^verbatim>\<open>time.Duration\<close> is an int64 count of nanoseconds. \<^verbatim>\<open>Time.Sub\<close> saturates at the
  largest and smallest duration instead of overflowing.
\<close>

type_synonym Time = int
type_synonym Duration = int

definition maxDuration :: Duration where
  "maxDuration = 2 ^ 63 - 1"

definition minDuration :: Duration where
  "minDuration = - (2 ^ 63)"

definition Sub :: "Time \<Rightarrow> Time \<Rightarrow> Duration" where
  "Sub t u =
     (if t - u > maxDuration then maxDuration
      else if t - u < minDuration then minDuration
      else t - u)"

text \<open>
  Go's \<^verbatim>\<open>/\<close> on int64 for a divisor that is not zero: the quotient is truncated towards
  zero, and the most negative value divided by \<open>-1\<close> is itself. A zero divisor is a
  run-time panic, which the callers below check before they divide.
\<close>

definition quo :: "int \<Rightarrow> int \<Rightarrow> int" where
  "quo a b =
     (if a = minDuration \<and> b = - 1 then minDuration
      else sgn a * sgn b * (\<bar>a\<bar> div \<bar>b\<bar>))"

text \<open>\<^verbatim>\<open>x++\<close> on an int64 field wraps around at the largest value.\<close>

definition incr64 :: "int \<Rightarrow> int" where
  "incr64 c = (if c = 2 ^ 63 - 1 then - (2 ^ 63) else c + 1)"

section \<open>Decimal output\<close>

definition digit :: "nat \<Rightarrow> char" where
  "digit d = ''0123456789'' ! d"

fun dec :: "nat \<Rightarrow> string" where
  "dec n = (if n < 10 then [digit n] else dec (n div 10) @ [digit (n mod 10)])"

declare dec.simps [simp del]

text \<open>\<^verbatim>\<open>itoa\<close> is \<^verbatim>\<open>fmt.Sprintf("%d", i)\<close>.\<close>

definition itoa :: "int \<Rightarrow> string" where
  "itoa i = (if i < 0 then CHR ''-'' # dec (nat (- i)) else dec (nat i))"

section \<open>The service\<close>

type_synonym RateLimitAlgorithm = int

definition TokenBucket :: RateLimitAlgorithm where
  "TokenBucket = 0"

definition LeakyBucket :: RateLimitAlgorithm where
  "LeakyBucket = 1"

text \<open>
  The fields of \<^verbatim>\<open>Service\<close>, without the mutex: calls are sequential here. A nil
  \<^verbatim>\<open>limits\<close> map and a nil \<^verbatim>\<open>redisClient\<close> are \<open>None\<close>; a client is known by its
  address.
\<close>

record Service =
  userCalls :: "string \<rightharpoonup> Time list"
  limit :: int
  window :: Duration
  limits :: "(string \<rightharpoonup> int) option"
  redisClient :: "string option"
  useRedis :: bool
  successfulAcquires :: int
  failedAcquires :: int
  requestsLastSecond :: int
  redisLatencyMicros :: int
  algorithm :: RateLimitAlgorithm

text \<open>A value of type \<^verbatim>\<open>interface{}\<close> in a request map.\<close>

datatype iface = INil | IBool bool | IInt int | IString string

text \<open>
  The map an acquire returns: \<^verbatim>\<open>"allowed"\<close> and, on a denial, \<^verbatim>\<open>"error"\<close>.
\<close>

datatype Response = Response (allowed: bool) (error: "string option")

datatype panic = DivideByZero

definition getLimitForKey :: "Service \<Rightarrow> string \<Rightarrow> int" where
  "getLimitForKey s key =
     (case limits s of
        None \<Rightarrow> limit s
      | Some m \<Rightarrow> (case m key of Some l \<Rightarrow> l | None \<Rightarrow> limit s))"

definition SetLimit :: "Service \<Rightarrow> string \<Rightarrow> int \<Rightarrow> Service" where
  "SetLimit s key l =
     s\<lparr>limits := Some ((case limits s of None \<Rightarrow> Map.empty | Some m \<Rightarrow> m)(key \<mapsto> l))\<rparr>"

text \<open>\<^verbatim>\<open>sync.Map.LoadOrStore\<close>: the value found, or the given one after storing it.\<close>

definition LoadOrStore ::
  "(string \<rightharpoonup> Time list) \<Rightarrow> string \<Rightarrow> Time list \<Rightarrow> Time list \<times> (string \<rightharpoonup> Time list)" where
  "LoadOrStore m key v =
     (case m key of Some a \<Rightarrow> (a, m) | None \<Rightarrow> (v, m(key \<mapsto> v)))"

text \<open>The loop that keeps the calls inside the window.\<close>

definition recent :: "Duration \<Rightarrow> Time \<Rightarrow> Time list \<Rightarrow> Time list" where
  "recent w now calls = filter (\<lambda>t. Sub now t < w) calls"

section \<open>float64\<close>

text \<open>
  A finite float64 is the rational number it stands for. Infinities, NaN and the sign
  of zero are left out: the numbers below come from int64 counts of nanoseconds, so
  their magnitudes stay below \<open>2\<^sup>6\<^sup>4\<close>, and no operation below produces a negative zero.
  \<open>rd\<close> is the rounding of IEEE 754 binary64 arithmetic: to the nearest number with 53
  significant bits (exponent at least \<open>-1074\<close>), a tie to the even one.
\<close>

type_synonym float64 = rat

text \<open>The number of binary digits of a natural number.\<close>

fun bits :: "nat \<Rightarrow> nat" where
  "bits n = (if n = 0 then 0 else Suc (bits (n div 2)))"

declare bits.simps [simp del]

text \<open>For \<open>x > 0\<close>, the integer \<open>k\<close> with \<open>2\<^sup>k \<le> x < 2\<^sup>k\<^sup>+\<^sup>1\<close>.\<close>

definition ilog2 :: "rat \<Rightarrow> int" where
  "ilog2 x =
     (if 1 \<le> x then int (bits (nat \<lfloor>x\<rfloor>)) - 1
      else - int (bits (nat (\<lceil>1 / x\<rceil> - 1))))"

definition pow2 :: "int \<Rightarrow> rat" where
  "pow2 e = (if 0 \<le> e then 2 ^ nat e else 1 / 2 ^ nat (- e))"

text \<open>Rounding to the nearest integer, a tie to the even one.\<close>

definition round_even :: "rat \<Rightarrow> int" where
  "round_even x =
     (let f = \<lfloor>x\<rfloor>; d = x - of_int f
      in if d < 1 / 2 then f else if 1 / 2 < d then f + 1 else if even f then f else f + 1)"

definition rd :: "rat \<Rightarrow> float64" where
  "rd x =
     (if x = 0 then 0
      else (let e = max (ilog2 \<bar>x\<bar> - 52) (- 1074)
            in of_int (round_even (x / pow2 e)) * pow2 e))"

text \<open>The conversion \<^verbatim>\<open>float64(n)\<close> of an int64 and the operations \<^verbatim>\<open>+\<close>, \<^verbatim>\<open>-\<close>, \<^verbatim>\<open>/\<close>.\<close>

definition float64_of_int :: "int \<Rightarrow> float64" where
  "float64_of_int n = rd (of_int n)"

definition fadd :: "float64 \<Rightarrow> float64 \<Rightarrow> float64" where
  "fadd a b = rd (a + b)"

definition fsub :: "float64 \<Rightarrow> float64 \<Rightarrow> float64" where
  "fsub a b = rd (a - b)"

text \<open>The divisor is never zero where \<open>fdiv\<close> is used without a check.\<close>

definition fdiv :: "float64 \<Rightarrow> float64 \<Rightarrow> float64" where
  "fdiv a b = rd (a / b)"

text \<open>\<^verbatim>\<open>float64(time.Now().UnixNano()) / 1e9\<close>, for an instant within int64 nanoseconds.\<close>

definition unixSeconds :: "Time \<Rightarrow> float64" where
  "unixSeconds t = fdiv (float64_of_int t) 1000000000"

text \<open>Go's \<^verbatim>\<open>%\<close> on int64 for a divisor that is not zero.\<close>

definition rem :: "int \<Rightarrow> int \<Rightarrow> int" where
  "rem a b = a - quo a b * b"

text \<open>
  \<^verbatim>\<open>Duration.Seconds\<close>: \<^verbatim>\<open>sec := d / Second; nsec := d % Second;
  return float64(sec) + float64(nsec)/1e9\<close>.
\<close>

definition Seconds :: "Duration \<Rightarrow> float64" where
  "Seconds d =
     fadd (float64_of_int (quo d 1000000000))
          (fdiv (float64_of_int (rem d 1000000000)) 1000000000)"

text \<open>
  \<^verbatim>\<open>fmt.Sprintf("%f", x)\<close>: the sign, the integer part and six decimals of the decimal
  number nearest to \<open>x\<close>, a tie to the even one.
\<close>

definition frac6 :: "nat \<Rightarrow> string" where
  "frac6 f =
     [digit (f div 100000 mod 10), digit (f div 10000 mod 10), digit (f div 1000 mod 10),
      digit (f div 100 mod 10), digit (f div 10 mod 10), digit (f mod 10)]"

definition sprintf_f :: "float64 \<Rightarrow> string" where
  "sprintf_f x =
     (let m = nat (round_even (\<bar>x\<bar> * 1000000))
      in (if x < 0 then ''-'' else '''') @ dec (m div 1000000) @ ''.'' @ frac6 (m mod 1000000))"

text \<open>The number a text of decimal digits stands for.\<close>

definition undec :: "string \<Rightarrow> nat" where
  "undec cs = foldl (\<lambda>a c. 10 * a + (of_char c - 48)) 0 cs"

text \<open>
  The store reads a score bound from its text as the nearest float64: an optional
  minus sign, digits, and optionally a point and more digits.
\<close>

definition strtod :: "string \<Rightarrow> float64" where
  "strtod cs =
     (let neg = (take 1 cs = ''-'');
          body = (if neg then drop 1 cs else cs);
          ip = takeWhile (\<lambda>c. c \<noteq> CHR ''.'') body;
          fp = drop 1 (dropWhile (\<lambda>c. c \<noteq> CHR ''.'') body);
          v = of_nat (undec ip) + of_nat (undec fp) / 10 ^ length fp
      in rd (if neg then - v else v))"

section \<open>The remote sorted sets\<close>

text \<open>
  A sorted set is the list of its members with their scores, each member once; a key
  of the store holds a sorted set and the time to live, in whole seconds, given by the
  last \<^verbatim>\<open>EXPIRE\<close>. A key whose set is empty does not exist. The client sends a score as
  the shortest text that reads back as the same float64, so the store holds the score
  itself. The store deletes a key when its time to live has run out on the store's own
  clock; that is a step of the store between two calls, not of a call, and the store a
  call is given here is the store as its transaction finds it.
\<close>

record Z =
  Score :: float64
  Member :: string

record redis_key =
  entries :: "(string \<times> float64) list"
  ttl :: "int option"

type_synonym RedisDB = "string \<rightharpoonup> redis_key"

text \<open>The store's key for a caller's key.\<close>

definition redisKey :: "string \<Rightarrow> string" where
  "redisKey key = ''ratelimit:'' @ key"

text \<open>\<^verbatim>\<open>ZREMRANGEBYSCORE key min max\<close>, the bounds given as texts and both inclusive.\<close>

definition ZRemRangeByScore :: "string \<Rightarrow> string \<Rightarrow> string \<Rightarrow> RedisDB \<Rightarrow> RedisDB" where
  "ZRemRangeByScore key lo hi db =
     (case db key of
        None \<Rightarrow> db
      | Some v \<Rightarrow>
          (let es = filter (\<lambda>(m, sc). \<not> (strtod lo \<le> sc \<and> sc \<le> strtod hi)) (entries v)
           in if es = [] then db(key := None) else db(key \<mapsto> v\<lparr>entries := es\<rparr>)))"

definition zadd_entries :: "Z \<Rightarrow> (string \<times> float64) list \<Rightarrow> (string \<times> float64) list" where
  "zadd_entries z es =
     (if Member z \<in> fst ` set es
      then map (\<lambda>(m, sc). if m = Member z then (m, Score z) else (m, sc)) es
      else es @ [(Member z, Score z)])"

definition ZAdd :: "string \<Rightarrow> Z \<Rightarrow> RedisDB \<Rightarrow> RedisDB" where
  "ZAdd key z db =
     (case db key of
        None \<Rightarrow> db(key \<mapsto> \<lparr>entries = [(Member z, Score z)], ttl = None\<rparr>)
      | Some v \<Rightarrow> db(key \<mapsto> v\<lparr>entries := zadd_entries z (entries v)\<rparr>))"

definition ZCard :: "string \<Rightarrow> RedisDB \<Rightarrow> int" where
  "ZCard key db = (case db key of None \<Rightarrow> 0 | Some v \<Rightarrow> int (length (entries v)))"

text \<open>
  The client's \<^verbatim>\<open>Expire\<close> sends the duration in whole seconds: 1 for a positive
  duration below one second, the truncated quotient otherwise.
\<close>

definition formatSec :: "Duration \<Rightarrow> int" where
  "formatSec d = (if 0 < d \<and> d < 1000000000 then 1 else quo d 1000000000)"

text \<open>\<^verbatim>\<open>EXPIRE key seconds\<close>: a time to live that is not positive deletes the key.\<close>

definition Expire :: "string \<Rightarrow> Duration \<Rightarrow> RedisDB \<Rightarrow> RedisDB" where
  "Expire key d db =
     (case db key of
        None \<Rightarrow> db
      | Some v \<Rightarrow>
          if formatSec d \<le> 0 then db(key := None)
          else db(key \<mapsto> v\<lparr>ttl := Some (formatSec d)\<rparr>))"

text \<open>
  What \<^verbatim>\<open>pipe.Exec\<close> reports: the transaction ran; or \<^verbatim>\<open>Exec\<close> returns an error, the
  store not having run the transaction (\<open>ExecErr\<close>) or having run it, the reply being
  lost (\<open>ReplyLost\<close>); or \<^verbatim>\<open>Exec\<close> returns no error and the count's own result carries
  one.
\<close>

datatype exec_result = ExecOk | ExecErr | ReplyLost | ResultErr

section \<open>Acquire\<close>

definition acquireTokenBucket ::
  "Service \<Rightarrow> RedisDB \<Rightarrow> Time \<Rightarrow> exec_result \<Rightarrow> string \<Rightarrow> Response \<times> Service \<times> RedisDB" where
  "acquireTokenBucket s db now ex key =
     (if useRedis s \<and> redisClient s \<noteq> None then
        (let nowf = unixSeconds now;
             windowStart = fsub nowf (Seconds (window s));
             lmt = getLimitForKey s key;
             db1 = ZRemRangeByScore (redisKey key) ''0'' (sprintf_f windowStart) db;
             db2 = ZAdd (redisKey key) \<lparr>Score = nowf, Member = sprintf_f nowf\<rparr> db1;
             count = ZCard (redisKey key) db2;
             db3 = Expire (redisKey key) (window s) db2
         in if ex = ExecErr \<or> ex = ReplyLost then
              (Response False (Some ''redis error''),
               s\<lparr>failedAcquires := incr64 (failedAcquires s)\<rparr>,
               if ex = ReplyLost then db3 else db)
            else if ex = ResultErr then
              (Response False (Some ''redis error''),
               s\<lparr>failedAcquires := incr64 (failedAcquires s)\<rparr>, db3)
            else if count > lmt then
              (Response False (Some ''rate limit exceeded''),
               s\<lparr>failedAcquires := incr64 (failedAcquires s)\<rparr>, db3)
            else
              (Response True None,
               s\<lparr>successfulAcquires := incr64 (successfulAcquires s)\<rparr>, db3))
      else
        (let lmt = getLimitForKey s key;
             (calls, m) = LoadOrStore (userCalls s) key [];
             recentCalls = recent (window s) now calls
         in if int (length recentCalls) \<ge> lmt then
              (Response False (Some ''rate limit exceeded''),
               s\<lparr>userCalls := m, failedAcquires := incr64 (failedAcquires s)\<rparr>, db)
            else
              (Response True None,
               s\<lparr>userCalls := m(key \<mapsto> recentCalls @ [now]),
                 successfulAcquires := incr64 (successfulAcquires s)\<rparr>, db)))"

definition acquireLeakyBucket ::
  "Service \<Rightarrow> Time \<Rightarrow> string \<Rightarrow> panic + Response \<times> Service" where
  "acquireLeakyBucket s now key =
     (let lmt = getLimitForKey s key
      in if lmt = 0 then Inl DivideByZero
         else
           (let interval = quo (window s) lmt;
                (calls, m) = LoadOrStore (userCalls s) key [];
                recentCalls = recent (window s) now calls
            in if recentCalls = [] \<or> Sub now (last recentCalls) \<ge> interval then
                 Inr (Response True None,
                      s\<lparr>userCalls := m(key \<mapsto> recentCalls @ [now]),
                        successfulAcquires := incr64 (successfulAcquires s)\<rparr>)
               else
                 Inr (Response False (Some ''leaky bucket: rate limit exceeded''),
                      s\<lparr>userCalls := m, failedAcquires := incr64 (failedAcquires s)\<rparr>)))"

definition Acquire ::
  "Service \<Rightarrow> RedisDB \<Rightarrow> Time \<Rightarrow> exec_result \<Rightarrow> (string \<rightharpoonup> iface)
     \<Rightarrow> panic + Response \<times> Service \<times> RedisDB" where
  "Acquire s db now ex input =
     (case input ''key'' of
        Some (IString key) \<Rightarrow>
          if key = '''' then
            Inr (Response False (Some ''missing or invalid key''),
                 s\<lparr>failedAcquires := incr64 (failedAcquires s)\<rparr>, db)
          else if algorithm s = TokenBucket then Inr (acquireTokenBucket s db now ex key)
          else if algorithm s = LeakyBucket then
            (case acquireLeakyBucket s now key of
               Inl p \<Rightarrow> Inl p
             | Inr (r, s') \<Rightarrow> Inr (r, s', db))
          else Inr (Response False (Some ''unknown algorithm''), s, db)
      | _ \<Rightarrow>
          Inr (Response False (Some ''missing or invalid key''),
               s\<lparr>failedAcquires := incr64 (failedAcquires s)\<rparr>, db))"

text \<open>The history kept for a key; a key never seen has none.\<close>

definition history :: "Service \<Rightarrow> string \<Rightarrow> Time list" where
  "history s key = (case userCalls s key of None \<Rightarrow> [] | Some calls \<Rightarrow> calls)"

definition local_backend :: "Service \<Rightarrow> bool" where
  "local_backend s = (\<not> (useRedis s \<and> redisClient s \<noteq> None))"

text \<open>The service of the in-memory tests: a limit, a window, and nothing else set.\<close>

definition test_service :: "int \<Rightarrow> Duration \<Rightarrow> Service" where
  "test_service l w =
     \<lparr>userCalls = Map.empty, limit = l, window = w, limits = None, redisClient = None,
      useRedis = False, successfulAcquires = 0, failedAcquires = 0,
      requestsLastSecond = 0, redisLatencyMicros = 0, algorithm = TokenBucket\<rparr>"

section \<open>Status\<close>

datatype redis_error = RedisError

text \<open>
  The map \<^verbatim>\<open>Status\<close> returns. \<open>None\<close> for the refill rate stands for the infinity or
  the NaN of a division by a window of zero seconds.
\<close>

record StatusResponse =
  st_key :: string
  tokens_left :: int
  st_limit :: int
  window_sec :: int
  refill_rate :: "float64 option"
  source :: "string option"

definition statusRedis ::
  "Service \<Rightarrow> RedisDB \<Rightarrow> Time \<Rightarrow> exec_result \<Rightarrow> string \<Rightarrow> (redis_error + int) \<times> RedisDB" where
  "statusRedis s db now ex key =
     (let nowf = unixSeconds now;
          windowStart = fsub nowf (Seconds (window s));
          lmt = getLimitForKey s key;
          db1 = ZRemRangeByScore (redisKey key) ''0'' (sprintf_f windowStart) db;
          count = ZCard (redisKey key) db1
      in if ex = ExecErr \<or> ex = ReplyLost then
           (Inl RedisError, if ex = ReplyLost then db1 else db)
         else if ex = ResultErr then (Inl RedisError, db1)
         else
           (let tokensLeft = lmt - count
            in (Inr (if tokensLeft < 0 then 0 else tokensLeft), db1)))"

text \<open>\<^verbatim>\<open>float64(limit) / s.window.Seconds()\<close>.\<close>

definition refillRate :: "int \<Rightarrow> Duration \<Rightarrow> float64 option" where
  "refillRate lmt w =
     (if Seconds w = 0 then None else Some (fdiv (float64_of_int lmt) (Seconds w)))"

text \<open>\<^verbatim>\<open>int(s.window.Seconds())\<close>: the conversion drops the fraction.\<close>

definition windowSec :: "Duration \<Rightarrow> int" where
  "windowSec w = (if 0 \<le> Seconds w then \<lfloor>Seconds w\<rfloor> else \<lceil>Seconds w\<rceil>)"

definition statusLocal :: "Service \<Rightarrow> Time \<Rightarrow> string \<Rightarrow> StatusResponse" where
  "statusLocal s now key =
     (let lmt = getLimitForKey s key;
          calls = (case userCalls s key of None \<Rightarrow> [] | Some v \<Rightarrow> v);
          recentCalls = recent (window s) now calls;
          tokensLeft = lmt - int (length recentCalls)
      in \<lparr>st_key = key, tokens_left = (if tokensLeft < 0 then 0 else tokensLeft),
          st_limit = lmt, window_sec = windowSec (window s),
          refill_rate = refillRate lmt (window s), source = None\<rparr>)"

definition Status ::
  "Service \<Rightarrow> RedisDB \<Rightarrow> Time \<Rightarrow> exec_result \<Rightarrow> string \<Rightarrow> StatusResponse \<times> RedisDB" where
  "Status s db now ex key =
     (let lmt = getLimitForKey s key
      in if useRedis s \<and> redisClient s \<noteq> None then
           (case statusRedis s db now ex key of
              (Inr tokensLeft, db') \<Rightarrow>
                (\<lparr>st_key = key, tokens_left = tokensLeft, st_limit = lmt,
                  window_sec = windowSec (window s),
                  refill_rate = refillRate lmt (window s), source = Some ''redis''\<rparr>, db')
            | (Inl e, db') \<Rightarrow> (statusLocal s now key, db'))
         else (statusLocal s now key, db))"

section \<open>Metrics\<close>

definition nl :: string where
  "nl = [CHR 0x0A]"

text \<open>The text of the export; the number of goroutines is read from the runtime.\<close>

definition Metrics :: "Service \<Rightarrow> int \<Rightarrow> string" where
  "Metrics s goroutines =
     ''# HELP ratelimiter_successful_acquires Number of successful acquire attempts'' @ nl @
     ''# TYPE ratelimiter_successful_acquires counter'' @ nl @
     ''ratelimiter_successful_acquires '' @ itoa (successfulAcquires s) @ nl @
     ''# HELP ratelimiter_failed_acquires Number of failed acquire attempts'' @ nl @
     ''# TYPE ratelimiter_failed_acquires counter'' @ nl @
     ''ratelimiter_failed_acquires '' @ itoa (failedAcquires s) @ nl @
     ''# HELP ratelimiter_requests_last_second Requests in the last second'' @ nl @
     ''# TYPE ratelimiter_requests_last_second gauge'' @ nl @
     ''ratelimiter_requests_last_second '' @ itoa (requestsLastSecond s) @ nl @
     ''# HELP ratelimiter_redis_latency_microseconds Last Redis latency in microseconds'' @ nl @
     ''# TYPE ratelimiter_redis_latency_microseconds gauge'' @ nl @
     ''ratelimiter_redis_latency_microseconds '' @ itoa (redisLatencyMicros s) @ nl @
     ''# HELP ratelimiter_goroutines Number of goroutines'' @ nl @
     ''# TYPE ratelimiter_goroutines gauge'' @ nl @
     ''ratelimiter_goroutines '' @ itoa goroutines @ nl"

section \<open>Construction\<close>

text \<open>
  \<^verbatim>\<open>NewService\<close> reads the address from the environment and pings the store; the
  outcome of the ping is an input here. Fields a struct literal leaves out are zero.
\<close>

definition NewService :: "RateLimitAlgorithm \<Rightarrow> string \<Rightarrow> bool \<Rightarrow> Service" where
  "NewService alg env_addr ping_ok =
     (let addr = (if env_addr = [] then ''localhost:6379'' else env_addr)
      in if \<not> ping_ok then
           \<lparr>userCalls = Map.empty, limit = 5, window = 60000000000, limits = Some Map.empty,
            redisClient = None, useRedis = False, successfulAcquires = 0, failedAcquires = 0,
            requestsLastSecond = 0, redisLatencyMicros = 0, algorithm = alg\<rparr>
         else
           \<lparr>userCalls = Map.empty, limit = 5, window = 60000000000, limits = Some Map.empty,
            redisClient = Some addr, useRedis = True, successfulAcquires = 0,
            failedAcquires = 0, requestsLastSecond = 0, redisLatencyMicros = 0,
            algorithm = alg\<rparr>)"

section \<open>Sequences of calls\<close>

text \<open>
  The operations of the service, each with what it reads from outside: the clock, the
  outcome of the transaction, the number of goroutines. An acquire that panics leaves
  the service as it was: the division comes before any write.
\<close>

datatype op =
    OpAcquire Time exec_result "string \<rightharpoonup> iface"
  | OpStatus Time exec_result string
  | OpSetLimit string int
  | OpMetrics int

fun step :: "Service \<times> RedisDB \<Rightarrow> op \<Rightarrow> Service \<times> RedisDB" where
  "step (s, db) (OpAcquire now ex input) =
     (case Acquire s db now ex input of
        Inl p \<Rightarrow> (s, db)
      | Inr (r, s', db') \<Rightarrow> (s', db'))"
| "step (s, db) (OpStatus now ex key) = (s, snd (Status s db now ex key))"
| "step (s, db) (OpSetLimit key l) = (SetLimit s key l, db)"
| "step (s, db) (OpMetrics n) = (s, db)"

text \<open>
  Token-bucket acquires one after the other, each with its key and the clock's reading,
  every transaction succeeding and no key of the store expiring between the calls.
\<close>

fun tb_run ::
  "Service \<Rightarrow> RedisDB \<Rightarrow> (string \<times> Time) list \<Rightarrow> Response list \<times> Service \<times> RedisDB" where
  "tb_run s db [] = ([], s, db)"
| "tb_run s db ((key, now) # evs) =
     (case acquireTokenBucket s db now ExecOk key of
        (r, s', db') \<Rightarrow> (case tb_run s' db' evs of (rs, s'', db'') \<Rightarrow> (r # rs, s'', db'')))"

text \<open>Leaky-bucket acquires one after the other; a panic ends the sequence.\<close>

fun lb_run :: "Service \<Rightarrow> (string \<times> Time) list \<Rightarrow> panic + Response list \<times> Service" where
  "lb_run s [] = Inr ([], s)"
| "lb_run s ((key, now) # evs) =
     (case acquireLeakyBucket s now key of
        Inl p \<Rightarrow> Inl p
      | Inr (r, s') \<Rightarrow>
          (case lb_run s' evs of Inl p \<Rightarrow> Inl p | Inr (rs, s'') \<Rightarrow> Inr (r # rs, s'')))"

text \<open>The instants at which a key was allowed, in a sequence of calls and its responses.\<close>

fun allowed_times :: "string \<Rightarrow> (string \<times> Time) list \<Rightarrow> Response list \<Rightarrow> Time list" where
  "allowed_times k ((key, now) # evs) (r # rs) =
     (if key = k \<and> allowed r then now # allowed_times k evs rs else allowed_times k evs rs)"
| "allowed_times k evs rs = []"

definition count_between :: "Time \<Rightarrow> Time \<Rightarrow> Time list \<Rightarrow> nat" where
  "count_between a b ts = length (filter (\<lambda>t. a \<le> t \<and> t < b) ts)"

fun spaced :: "int \<Rightarrow> Time list \<Rightarrow> bool" where
  "spaced d (x # y # ys) = (d \<le> y - x \<and> spaced d (y # ys))"
| "spaced d ys = True"

definition zset :: "RedisDB \<Rightarrow> string \<Rightarrow> (string \<times> float64) list" where
  "zset db key = (case db key of None \<Rightarrow> [] | Some v \<Rightarrow> entries v)"

text \<open>
  The service of the tests against the store: a limit of 2, a window of one second, the
  token bucket, the client connected.
\<close>

definition setupRedis :: Service where
  "setupRedis =
     \<lparr>userCalls = Map.empty, limit = 2, window = 1000000000, limits = Some Map.empty,
      redisClient = Some ''localhost:6379'', useRedis = True, successfulAcquires = 0,
      failedAcquires = 0, requestsLastSecond = 0, redisLatencyMicros = 0,
      algorithm = TokenBucket\<rparr>"

section \<open>Basic facts\<close>

lemma Sub_less_iff:
  "minDuration < w \<Longrightarrow> w \<le> maxDuration \<Longrightarrow> Sub now t < w \<longleftrightarrow> now - t < w"
  by (auto simp: Sub_def minDuration_def maxDuration_def)

lemma Sub_le_diff: "t \<le> now \<Longrightarrow> Sub now t \<le> now - t"
  by (auto simp: Sub_def minDuration_def maxDuration_def)

lemma Sub_nonneg: "t \<le> now \<Longrightarrow> 0 \<le> Sub now t"
  by (auto simp: Sub_def minDuration_def maxDuration_def)

lemma Sub_antimono: "t \<le> u \<Longrightarrow> Sub now u \<le> Sub now t"
  by (auto simp: Sub_def minDuration_def maxDuration_def)

lemma history_LoadOrStore:
  "history (s\<lparr>userCalls := snd (LoadOrStore (userCalls s) key []), failedAcquires := c\<rparr>) k =
     history s k"
  by (auto simp: history_def LoadOrStore_def split: option.splits)

lemma acquireTokenBucket_local:
  assumes "local_backend s"
  shows "acquireTokenBucket s db now ex key =
     (if getLimitForKey s key \<le> int (length (recent (window s) now (history s key)))
      then (Response False (Some ''rate limit exceeded''),
            s\<lparr>userCalls := snd (LoadOrStore (userCalls s) key []),
              failedAcquires := incr64 (failedAcquires s)\<rparr>, db)
      else (Response True None,
            s\<lparr>userCalls := (userCalls s)(key \<mapsto> recent (window s) now (history s key) @ [now]),
              successfulAcquires := incr64 (successfulAcquires s)\<rparr>, db))"
  using assms
  by (auto simp: acquireTokenBucket_def local_backend_def history_def LoadOrStore_def Let_def
      split: option.splits prod.splits)

lemma token_bucket_example:
  "map allowed (fst (tb_run (test_service 2 1000000000) db
     [(k, 0), (k, 10000000), (k, 500000000), (k, 1100000000)])) = [True, True, False, True]
   \<and> map error (fst (tb_run (test_service 2 1000000000) db
     [(k, 0), (k, 10000000), (k, 500000000), (k, 1100000000)])) =
       [None, None, Some ''rate limit exceeded'', None]"
  by (simp add: test_service_def acquireTokenBucket_def LoadOrStore_def recent_def Sub_def
      getLimitForKey_def maxDuration_def minDuration_def incr64_def)

section \<open>The token bucket on the local backend\<close>

text \<open>
  C1. On the local backend an acquire keeps the entries \<open>t\<close> of the key's history with
  \<open>now.Sub(t) < window\<close>. When at least \<open>limit\<close> of them are kept, the call is denied
  with the error "rate limit exceeded" and no key's history changes: the attempt is not
  recorded. Otherwise the call is allowed and the key's history becomes the kept entries
  followed by \<open>now\<close>, the other keys' histories staying as they were. The remote store
  is not touched. With a limit of 2 and a window of one second, calls at 0 ms, 10 ms,
  500 ms and 1100 ms are allowed, allowed, denied and allowed.
\<close>

theorem token_bucket_local_decision:
  assumes "local_backend s"
  shows "(case acquireTokenBucket s db now ex key of
            (r, s', db') \<Rightarrow>
              db' = db \<and>
              (if getLimitForKey s key \<le> int (length (filter (\<lambda>t. Sub now t < window s) (history s key)))
               then r = Response False (Some ''rate limit exceeded'') \<and>
                    (\<forall>k. history s' k = history s k)
               else r = Response True None \<and>
                    userCalls s' key = Some (filter (\<lambda>t. Sub now t < window s) (history s key) @ [now]) \<and>
                    (\<forall>k. k \<noteq> key \<longrightarrow> userCalls s' k = userCalls s k))) \<and>
         map allowed (fst (tb_run (test_service 2 1000000000) db
           [(key, 0), (key, 10000000), (key, 500000000), (key, 1100000000)])) =
           [True, True, False, True] \<and>
         map error (fst (tb_run (test_service 2 1000000000) db
           [(key, 0), (key, 10000000), (key, 500000000), (key, 1100000000)])) =
           [None, None, Some ''rate limit exceeded'', None]"
proof -
  have "case acquireTokenBucket s db now ex key of
          (r, s', db') \<Rightarrow>
            db' = db \<and>
            (if getLimitForKey s key \<le> int (length (filter (\<lambda>t. Sub now t < window s) (history s key)))
             then r = Response False (Some ''rate limit exceeded'') \<and>
                  (\<forall>k. history s' k = history s k)
             else r = Response True None \<and>
                  userCalls s' key = Some (filter (\<lambda>t. Sub now t < window s) (history s key) @ [now]) \<and>
                  (\<forall>k. k \<noteq> key \<longrightarrow> userCalls s' k = userCalls s k))"
    unfolding acquireTokenBucket_local [OF assms]
    by (simp add: recent_def history_LoadOrStore)
  with token_bucket_example [of db key] show ?thesis
    by blast
qed

theorem token_bucket_local_decision_witness:
  "local_backend (test_service 1 1000000000) \<and>
   acquireTokenBucket (test_service 1 1000000000) Map.empty 5 ExecOk ''user2'' =
     (Response True None,
      (test_service 1 1000000000)\<lparr>userCalls := [''user2'' \<mapsto> [5]], successfulAcquires := 1\<rparr>,
      Map.empty) \<and>
   fst (acquireTokenBucket
     ((test_service 1 1000000000)\<lparr>userCalls := [''user2'' \<mapsto> [5]], successfulAcquires := 1\<rparr>)
     Map.empty 7 ExecOk ''user2'') = Response False (Some ''rate limit exceeded'')"
proof -
  have l: "local_backend (test_service 1 1000000000)"
    by (simp add: local_backend_def test_service_def)
  have l': "local_backend
      ((test_service 1 1000000000)\<lparr>userCalls := [''user2'' \<mapsto> [5]], successfulAcquires := 1\<rparr>)"
    by (simp add: local_backend_def test_service_def)
  have a: "acquireTokenBucket (test_service 1 1000000000) Map.empty 5 ExecOk ''user2'' =
     (Response True None,
      (test_service 1 1000000000)\<lparr>userCalls := [''user2'' \<mapsto> [5]], successfulAcquires := 1\<rparr>,
      Map.empty)"
    by (simp add: test_service_def acquireTokenBucket_def LoadOrStore_def recent_def
        getLimitForKey_def incr64_def)
  from token_bucket_local_decision [OF l', where db = Map.empty and now = 7 and ex = ExecOk
      and key = "''user2''"]
  have "fst (acquireTokenBucket
     ((test_service 1 1000000000)\<lparr>userCalls := [''user2'' \<mapsto> [5]], successfulAcquires := 1\<rparr>)
     Map.empty 7 ExecOk ''user2'') = Response False (Some ''rate limit exceeded'')"
    by (simp add: test_service_def getLimitForKey_def history_def Sub_def maxDuration_def
        minDuration_def split: prod.splits if_splits)
  with l a show ?thesis by simp
qed

section \<open>Requests without a key\<close>

text \<open>
  C5. When the request has no \<open>key\<close> field, or its value is not a string, or it is the
  empty string, an acquire returns \<open>allowed = false\<close> with the error "missing or invalid
  key"; the histories, the limits and the remote store are as before, and the only
  field written is the counter of failed acquires, which goes up by one.
\<close>

theorem acquire_missing_key:
  assumes "input ''key'' = None \<or> (\<exists>v. input ''key'' = Some v \<and> (\<forall>k. v \<noteq> IString k))
           \<or> input ''key'' = Some (IString [])"
  shows "Acquire s db now ex input =
           Inr (Response False (Some ''missing or invalid key''),
                s\<lparr>failedAcquires := incr64 (failedAcquires s)\<rparr>, db)"
  using assms
  by (auto simp: Acquire_def split: option.splits iface.splits)

theorem acquire_missing_key_witness:
  "Acquire (test_service 1 1000000000) Map.empty 0 ExecOk Map.empty =
     Inr (Response False (Some ''missing or invalid key''),
          (test_service 1 1000000000)\<lparr>failedAcquires := 1\<rparr>, Map.empty) \<and>
   Acquire (test_service 1 1000000000) Map.empty 0 ExecOk [''key'' \<mapsto> IInt 7] =
     Inr (Response False (Some ''missing or invalid key''),
          (test_service 1 1000000000)\<lparr>failedAcquires := 1\<rparr>, Map.empty) \<and>
   Acquire (test_service 1 1000000000) Map.empty 0 ExecOk [''key'' \<mapsto> IString []] =
     Inr (Response False (Some ''missing or invalid key''),
          (test_service 1 1000000000)\<lparr>failedAcquires := 1\<rparr>, Map.empty)"
proof -
  have f: "incr64 (failedAcquires (test_service 1 1000000000)) = 1"
    by (simp add: incr64_def test_service_def)
  show ?thesis
    using acquire_missing_key [of Map.empty "test_service 1 1000000000" Map.empty 0 ExecOk]
      acquire_missing_key [of "[''key'' \<mapsto> IInt 7]" "test_service 1 1000000000" Map.empty 0 ExecOk]
      acquire_missing_key [of "[''key'' \<mapsto> IString []]" "test_service 1 1000000000" Map.empty 0 ExecOk]
    by (simp add: f)
qed

section \<open>The gauges nothing writes\<close>

lemma itoa_0: "itoa 0 = ''0''"
  by (simp add: itoa_def dec.simps digit_def)

lemma acquireTokenBucket_gauges:
  "acquireTokenBucket s db now ex key = (r, s', db') \<Longrightarrow>
   requestsLastSecond s' = requestsLastSecond s \<and> redisLatencyMicros s' = redisLatencyMicros s"
  by (auto simp: acquireTokenBucket_def Let_def split: prod.splits if_splits)

lemma acquireLeakyBucket_gauges:
  "acquireLeakyBucket s now key = Inr (r, s') \<Longrightarrow>
   requestsLastSecond s' = requestsLastSecond s \<and> redisLatencyMicros s' = redisLatencyMicros s"
  by (auto simp: acquireLeakyBucket_def Let_def split: prod.splits if_splits)

lemma Acquire_gauges:
  "Acquire s db now ex input = Inr (r, s', db') \<Longrightarrow>
   requestsLastSecond s' = requestsLastSecond s \<and> redisLatencyMicros s' = redisLatencyMicros s"
  by (auto simp: Acquire_def split: option.splits iface.splits if_splits sum.splits
      dest: acquireLeakyBucket_gauges acquireTokenBucket_gauges)

lemma step_gauges:
  "requestsLastSecond (fst (step p x)) = requestsLastSecond (fst p) \<and>
   redisLatencyMicros (fst (step p x)) = redisLatencyMicros (fst p)"
proof (cases p)
  case (Pair s db)
  show ?thesis
  proof (cases x)
    case (OpAcquire now ex input)
    then show ?thesis using Pair
      by (auto split: sum.splits dest: Acquire_gauges)
  qed (simp_all add: Pair SetLimit_def)
qed

lemma foldl_step_gauges:
  "requestsLastSecond (fst (foldl step p xs)) = requestsLastSecond (fst p) \<and>
   redisLatencyMicros (fst (foldl step p xs)) = redisLatencyMicros (fst p)"
  by (induction xs arbitrary: p) (simp_all add: step_gauges)

lemma NewService_gauges:
  "requestsLastSecond (NewService alg addr ok) = 0 \<and>
   redisLatencyMicros (NewService alg addr ok) = 0"
  by (simp add: NewService_def Let_def)

text \<open>
  C10. No operation writes the fields \<open>requestsLastSecond\<close> and
  \<open>redisLatencyMicros\<close>: an acquire, a status query, a change of limit and a metrics
  export each leave both as they were. So in every state reached from \<open>NewService\<close> by
  any sequence of operations both are 0, and the export prints
  \<open>ratelimiter_requests_last_second 0\<close> and \<open>ratelimiter_redis_latency_microseconds 0\<close>.
\<close>

theorem gauges_never_written:
  "requestsLastSecond (fst (step (s, db) x)) = requestsLastSecond s \<and>
   redisLatencyMicros (fst (step (s, db) x)) = redisLatencyMicros s \<and>
   requestsLastSecond (fst (foldl step (NewService alg addr ok, db0) xs)) = 0 \<and>
   redisLatencyMicros (fst (foldl step (NewService alg addr ok, db0) xs)) = 0 \<and>
   Metrics (fst (foldl step (NewService alg addr ok, db0) xs)) n =
     ''# HELP ratelimiter_successful_acquires Number of successful acquire attempts'' @ nl @
     ''# TYPE ratelimiter_successful_acquires counter'' @ nl @
     ''ratelimiter_successful_acquires '' @
       itoa (successfulAcquires (fst (foldl step (NewService alg addr ok, db0) xs))) @ nl @
     ''# HELP ratelimiter_failed_acquires Number of failed acquire attempts'' @ nl @
     ''# TYPE ratelimiter_failed_acquires counter'' @ nl @
     ''ratelimiter_failed_acquires '' @
       itoa (failedAcquires (fst (foldl step (NewService alg addr ok, db0) xs))) @ nl @
     ''# HELP ratelimiter_requests_last_second Requests in the last second'' @ nl @
     ''# TYPE ratelimiter_requests_last_second gauge'' @ nl @
     ''ratelimiter_requests_last_second 0'' @ nl @
     ''# HELP ratelimiter_redis_latency_microseconds Last Redis latency in microseconds'' @ nl @
     ''# TYPE ratelimiter_redis_latency_microseconds gauge'' @ nl @
     ''ratelimiter_redis_latency_microseconds 0'' @ nl @
     ''# HELP ratelimiter_goroutines Number of goroutines'' @ nl @
     ''# TYPE ratelimiter_goroutines gauge'' @ nl @
     ''ratelimiter_goroutines '' @ itoa n @ nl"
proof -
  have frame: "requestsLastSecond (fst (step (s, db) x)) = requestsLastSecond s \<and>
      redisLatencyMicros (fst (step (s, db) x)) = redisLatencyMicros s"
    using step_gauges [of "(s, db)" x] by simp
  have zero: "requestsLastSecond (fst (foldl step (NewService alg addr ok, db0) xs)) = 0 \<and>
      redisLatencyMicros (fst (foldl step (NewService alg addr ok, db0) xs)) = 0"
    using foldl_step_gauges [of "(NewService alg addr ok, db0)" xs]
      NewService_gauges [of alg addr ok] by simp
  show ?thesis
    unfolding Metrics_def using frame zero by (simp add: itoa_0)
qed

section \<open>Calls that no counter records\<close>

text \<open>
  C9. A service whose algorithm is neither of the two known ones answers an acquire for
  the key \<open>user1\<close> with the error "unknown algorithm" and returns the service as it was:
  neither the counter of successful acquires nor the counter of failed acquires goes up.
\<close>

theorem unknown_algorithm_not_counted:
  "Acquire ((test_service 1 1000000000)\<lparr>algorithm := 2\<rparr>) Map.empty 0 ExecOk
     [''key'' \<mapsto> IString ''user1''] =
   Inr (Response False (Some ''unknown algorithm''),
        (test_service 1 1000000000)\<lparr>algorithm := 2\<rparr>, Map.empty) \<and>
   successfulAcquires ((test_service 1 1000000000)\<lparr>algorithm := 2\<rparr>) = 0 \<and>
   failedAcquires ((test_service 1 1000000000)\<lparr>algorithm := 2\<rparr>) = 0"
  by (simp add: Acquire_def test_service_def TokenBucket_def LeakyBucket_def)

section \<open>Limits that are not positive\<close>

text \<open>
  C6. After \<open>SetLimit\<close> has given the key \<open>user1\<close> the limit 0, a leaky-bucket acquire
  for that key divides the window by zero and panics. With the limit \<open>-1\<close> the same
  acquire is allowed.
\<close>

theorem leaky_bucket_nonpositive_limit:
  "Acquire (SetLimit (NewService LeakyBucket [] False) ''user1'' 0) Map.empty 0 ExecOk
     [''key'' \<mapsto> IString ''user1''] = Inl DivideByZero \<and>
   map_sum id fst
     (Acquire (SetLimit (NewService LeakyBucket [] False) ''user1'' (- 1)) Map.empty 0 ExecOk
        [''key'' \<mapsto> IString ''user1'']) = Inr (Response True None)"
  by (simp add: Acquire_def SetLimit_def NewService_def TokenBucket_def LeakyBucket_def
      acquireLeakyBucket_def getLimitForKey_def LoadOrStore_def recent_def)

section \<open>Evaluating float64 and decimal texts\<close>

lemma bits_numeral:
  "bits 0 = 0" "bits (Suc 0) = 1" "bits (numeral Num.One) = 1"
  "bits (numeral (Num.Bit0 n)) = Suc (bits (numeral n))"
  "bits (numeral (Num.Bit1 n)) = Suc (bits (numeral n))"
proof -
  show "bits 0 = 0" by (simp add: bits.simps)
  show "bits (Suc 0) = 1" by (simp add: bits.simps [of "Suc 0"] bits.simps [of 0])
  then show "bits (numeral Num.One) = 1" by simp
  have "numeral (Num.Bit0 n) div (2::nat) = numeral n" by simp
  then show "bits (numeral (Num.Bit0 n)) = Suc (bits (numeral n))"
    by (simp add: bits.simps [of "numeral (Num.Bit0 n)"])
  have "numeral (Num.Bit1 n) div (2::nat) = numeral n" by simp
  then show "bits (numeral (Num.Bit1 n)) = Suc (bits (numeral n))"
    by (simp add: bits.simps [of "numeral (Num.Bit1 n)"])
qed

lemma floor_numeral_div:
  "\<lfloor>numeral a / numeral b :: rat\<rfloor> = numeral a div numeral b"
  "\<lfloor>- (numeral a / numeral b) :: rat\<rfloor> = - numeral a div numeral b"
  using floor_divide_of_int_eq [of "numeral a" "numeral b", where ?'a = rat]
    floor_divide_of_int_eq [of "- numeral a" "numeral b", where ?'a = rat]
  by simp_all

lemma ceiling_numeral_div:
  "\<lceil>numeral a / numeral b :: rat\<rceil> = - (- numeral a div numeral b)"
  "\<lceil>- (numeral a / numeral b) :: rat\<rceil> = - (numeral a div numeral b)"
  using floor_numeral_div [of a b] by (simp_all add: ceiling_def)

lemma dec_numeral:
  "dec 0 = ''0''" "dec (Suc 0) = ''1''" "dec 1 = ''1''"
  "dec (numeral n) =
     (if numeral n < (10::nat) then [digit (numeral n)]
      else dec (numeral n div 10) @ [digit (numeral n mod 10)])"
  by (simp_all add: dec.simps [of 0] dec.simps [of "Suc 0"] dec.simps [of "numeral n"] digit_def)

lemmas float_eval = bits_numeral floor_numeral_div ceiling_numeral_div rd_def ilog2_def
  pow2_def round_even_def float64_of_int_def fadd_def fsub_def fdiv_def unixSeconds_def
  Seconds_def quo_def rem_def minDuration_def Let_def

lemmas text_eval = dec_numeral sprintf_f_def frac6_def digit_def strtod_def undec_def

text \<open>
  The float64 seconds of the instants used below, the starts of their windows (of one
  second, and of half a second for the last two), and the texts and bounds made from
  them.
\<close>

lemma unixSeconds_values:
  "unixSeconds 0 = 0"
  "unixSeconds 1000000 = 1152921504606847 / 1152921504606846976"
  "unixSeconds 2000000 = 1152921504606847 / 576460752303423488"
  "unixSeconds 2000000000 = 2"
  "unixSeconds 1000 = 4722366482869645 / 4722366482869645213696"
  "unixSeconds 1400 = 6611313076017503 / 4722366482869645213696"
  "unixSeconds 946684800007000000 = 7941367686817121 / 8388608"
  "unixSeconds 946684801007000000 = 7941367695205729 / 8388608"
  "unixSeconds 1793000000011000000 = 3760193536023069 / 2097152"
  "unixSeconds 1793000000511000000 = 3760193537071645 / 2097152"
  by (simp_all add: float_eval)

lemma Seconds_values:
  "Seconds 1000000000 = 1"
  "Seconds 500000000 = 1 / 2"
  by (simp_all add: float_eval)

lemma fsub_values:
  "fsub 0 1 = - 1"
  "fsub (1152921504606847 / 1152921504606846976) 1 = - (8998192055486251 / 9007199254740992)"
  "fsub (1152921504606847 / 576460752303423488) 1 = - (4494592428115755 / 4503599627370496)"
  "fsub 2 1 = 1"
  "fsub (4722366482869645 / 4722366482869645213696) 1 = - (9007190247541737 / 9007199254740992)"
  "fsub (6611313076017503 / 4722366482869645213696) 1 = - (9007186644662035 / 9007199254740992)"
  "fsub (7941367686817121 / 8388608) 1 = 7941367678428513 / 8388608"
  "fsub (7941367695205729 / 8388608) 1 = 7941367686817121 / 8388608"
  "fsub (3760193536023069 / 2097152) (1 / 2) = 3760193534974493 / 2097152"
  "fsub (3760193537071645 / 2097152) (1 / 2) = 3760193536023069 / 2097152"
  by (simp_all add: float_eval)

lemma sprintf_f_values:
  "sprintf_f 0 = ''0.000000''"
  "sprintf_f (- 1) = ''-1.000000''"
  "sprintf_f (1152921504606847 / 1152921504606846976) = ''0.001000''"
  "sprintf_f (- (8998192055486251 / 9007199254740992)) = ''-0.999000''"
  "sprintf_f (1152921504606847 / 576460752303423488) = ''0.002000''"
  "sprintf_f (- (4494592428115755 / 4503599627370496)) = ''-0.998000''"
  "sprintf_f 2 = ''2.000000''"
  "sprintf_f 1 = ''1.000000''"
  "sprintf_f (4722366482869645 / 4722366482869645213696) = ''0.000001''"
  "sprintf_f (- (9007190247541737 / 9007199254740992)) = ''-0.999999''"
  "sprintf_f (6611313076017503 / 4722366482869645213696) = ''0.000001''"
  "sprintf_f (- (9007186644662035 / 9007199254740992)) = ''-0.999999''"
  "sprintf_f (7941367686817121 / 8388608) = ''946684800.007000''"
  "sprintf_f (7941367678428513 / 8388608) = ''946684799.007000''"
  "sprintf_f (7941367695205729 / 8388608) = ''946684801.007000''"
  "sprintf_f (3760193536023069 / 2097152) = ''1793000000.011000''"
  "sprintf_f (3760193534974493 / 2097152) = ''1792999999.511000''"
  "sprintf_f (3760193537071645 / 2097152) = ''1793000000.511000''"
  by (simp_all add: text_eval float_eval)

lemma strtod_values:
  "strtod ''0'' = 0"
  "strtod ''-1.000000'' = - 1"
  "strtod ''-0.999000'' = - (8998192055486251 / 9007199254740992)"
  "strtod ''-0.998000'' = - (4494592428115755 / 4503599627370496)"
  "strtod ''1.000000'' = 1"
  "strtod ''-0.999999'' = - (9007190247541737 / 9007199254740992)"
  "strtod ''946684799.007000'' = 248167739950891 / 262144"
  "strtod ''946684800.007000'' = 248167740213035 / 262144"
  "strtod ''1792999999.511000'' = 7520387069948985 / 4194304"
  "strtod ''1793000000.011000'' = 7520387072046137 / 4194304"
  by (simp_all add: text_eval float_eval)

lemmas shared_eval = setupRedis_def acquireTokenBucket_def getLimitForKey_def redisKey_def
  ZRemRangeByScore_def ZAdd_def ZCard_def Expire_def formatSec_def quo_def minDuration_def
  zadd_entries_def zset_def incr64_def Let_def
  unixSeconds_values Seconds_values fsub_values sprintf_f_values strtod_values

section \<open>Sorted sets\<close>

lemma zset_ZRem:
  "zset (ZRemRangeByScore key lo hi db) k =
     (if k = key
      then filter (\<lambda>(m, sc). \<not> (strtod lo \<le> sc \<and> sc \<le> strtod hi)) (zset db key)
      else zset db k)"
  by (auto simp: zset_def ZRemRangeByScore_def Let_def split: option.splits)

lemma zset_ZAdd:
  "zset (ZAdd key z db) k = (if k = key then zadd_entries z (zset db key) else zset db k)"
  by (auto simp: zset_def ZAdd_def zadd_entries_def split: option.splits)

lemma ZCard_zset: "ZCard key db = int (length (zset db key))"
  by (auto simp: zset_def ZCard_def split: option.splits)

lemma zset_Expire:
  "zset (Expire key d db) k = (if k = key \<and> formatSec d \<le> 0 then [] else zset db k)"
  by (auto simp: zset_def Expire_def split: option.splits)

lemma ttl_Expire_ZAdd:
  "0 < formatSec d \<Longrightarrow>
   map_option ttl (Expire key d (ZAdd key z db) key) = Some (Some (formatSec d))"
  by (auto simp: Expire_def ZAdd_def split: option.splits)

lemma set_zadd_entries:
  "set (zadd_entries z es) = insert (Member z, Score z) {e \<in> set es. fst e \<noteq> Member z}"
proof (cases "Member z \<in> fst ` set es")
  case True
  then obtain sc where sc: "(Member z, sc) \<in> set es" by auto
  have "(\<lambda>(m, sc). if m = Member z then (m, Score z) else (m, sc)) ` set es =
      insert (Member z, Score z) {e \<in> set es. fst e \<noteq> Member z}" (is "?f ` _ = ?R")
  proof
    show "?f ` set es \<subseteq> ?R" by (auto split: if_splits)
    have "(Member z, Score z) = ?f (Member z, sc)" by simp
    with sc have "(Member z, Score z) \<in> ?f ` set es" by (rule rev_image_eqI)
    moreover have "e \<in> ?f ` set es" if "e \<in> set es" "fst e \<noteq> Member z" for e
    proof -
      from that(2) have "e = ?f e" by (cases e) simp
      with that(1) show ?thesis by (rule rev_image_eqI)
    qed
    ultimately show "?R \<subseteq> ?f ` set es" by auto
  qed
  with True show ?thesis by (simp add: zadd_entries_def)
next
  case False
  then have "{e \<in> set es. fst e \<noteq> Member z} = set es" by force
  with False show ?thesis by (simp add: zadd_entries_def)
qed

lemma acquireTokenBucket_shared:
  assumes "\<not> local_backend s"
  shows "acquireTokenBucket s db now ex key =
     (let db2 = ZAdd (redisKey key)
                  \<lparr>Score = unixSeconds now, Member = sprintf_f (unixSeconds now)\<rparr>
                  (ZRemRangeByScore (redisKey key) ''0''
                     (sprintf_f (fsub (unixSeconds now) (Seconds (window s)))) db);
          db3 = Expire (redisKey key) (window s) db2
      in if ex = ExecErr then
           (Response False (Some ''redis error''),
            s\<lparr>failedAcquires := incr64 (failedAcquires s)\<rparr>, db)
         else if ex = ReplyLost \<or> ex = ResultErr then
           (Response False (Some ''redis error''),
            s\<lparr>failedAcquires := incr64 (failedAcquires s)\<rparr>, db3)
         else if getLimitForKey s key < ZCard (redisKey key) db2 then
           (Response False (Some ''rate limit exceeded''),
            s\<lparr>failedAcquires := incr64 (failedAcquires s)\<rparr>, db3)
         else (Response True None,
               s\<lparr>successfulAcquires := incr64 (successfulAcquires s)\<rparr>, db3))"
  using assms by (auto simp: acquireTokenBucket_def local_backend_def Let_def)

section \<open>The token bucket on the shared backend\<close>

text \<open>
  C4, as the code has it. With the client connected, an acquire whose transaction
  succeeds finds the key's set, removes the entries with a score from 0 to the bound
  read from the text of \<open>now - window\<close> in float64 seconds, inserts the entry for
  \<open>now\<close>, counts, and sets the key's time to live to the window in whole seconds (a
  time to live that is not positive deletes the key); no other key's set changes. The
  call is denied with "rate limit exceeded" when the count after the insertion is above
  the limit, and allowed otherwise; in both cases the inserted entry stays in the set.
  An acquire whose transaction fails is denied with "redis error". The histories of the
  local backend are not touched.
\<close>

theorem token_bucket_shared_decision:
  assumes "\<not> local_backend s"
  shows "(let rk = redisKey key;
              nowf = unixSeconds now;
              kept = filter (\<lambda>(m, sc). \<not> (strtod ''0'' \<le> sc \<and>
                         sc \<le> strtod (sprintf_f (fsub nowf (Seconds (window s))))))
                       (zset db rk);
              after = zadd_entries \<lparr>Score = nowf, Member = sprintf_f nowf\<rparr> kept
          in case acquireTokenBucket s db now ex key of
            (r, s', db') \<Rightarrow>
              userCalls s' = userCalls s \<and>
              (if ex = ExecOk then
                 zset db' rk = (if formatSec (window s) \<le> 0 then [] else after) \<and>
                 (\<forall>k. k \<noteq> rk \<longrightarrow> zset db' k = zset db k) \<and>
                 (0 < formatSec (window s) \<longrightarrow> (sprintf_f nowf, nowf) \<in> set (zset db' rk) \<and>
                    map_option ttl (db' rk) = Some (Some (formatSec (window s)))) \<and>
                 r = (if getLimitForKey s key < int (length after)
                      then Response False (Some ''rate limit exceeded'')
                      else Response True None)
               else r = Response False (Some ''redis error'')))"
proof -
  have t: "0 < formatSec (window s) \<Longrightarrow> map_option ttl (Expire (redisKey key) (window s)
      (ZAdd (redisKey key) \<lparr>Score = unixSeconds now, Member = sprintf_f (unixSeconds now)\<rparr>
        (ZRemRangeByScore (redisKey key) ''0''
           (sprintf_f (fsub (unixSeconds now) (Seconds (window s)))) db)) (redisKey key)) =
      Some (Some (formatSec (window s)))"
    by (rule ttl_Expire_ZAdd)
  show ?thesis
  proof (cases ex)
    case ExecOk
    then show ?thesis
      unfolding acquireTokenBucket_shared [OF assms] Let_def
      using t
      by (simp add: zset_Expire zset_ZAdd zset_ZRem ZCard_zset set_zadd_entries
          del: map_option_eq_Some)
  qed (simp_all add: acquireTokenBucket_shared [OF assms] Let_def)
qed

text \<open>
  A store in which the key \<open>u\<close> holds the entry of a call at instant 0, with a time to
  live of one second.
\<close>

lemma store_values:
  "zset [redisKey ''u'' \<mapsto> \<lparr>entries = [(''0.000000'', 0)], ttl = Some 1\<rparr>] (redisKey ''u'') =
     [(''0.000000'', 0)]"
  "\<not> local_backend (setupRedis\<lparr>limit := 1\<rparr>)"
  "getLimitForKey (setupRedis\<lparr>limit := 1\<rparr>) ''u'' = 1"
  "window (setupRedis\<lparr>limit := 1\<rparr>) = 1000000000"
  "formatSec 1000000000 = 1"
  by (simp_all add: zset_def local_backend_def setupRedis_def getLimitForKey_def formatSec_def
      quo_def minDuration_def)

lemma after_values:
  "zadd_entries \<lparr>Score = unixSeconds 1000000, Member = sprintf_f (unixSeconds 1000000)\<rparr>
     (filter (\<lambda>(m, sc). \<not> (strtod ''0'' \<le> sc \<and>
        sc \<le> strtod (sprintf_f (fsub (unixSeconds 1000000)
                 (Seconds (window (setupRedis\<lparr>limit := 1\<rparr>)))))))
       (zset [redisKey ''u'' \<mapsto> \<lparr>entries = [(''0.000000'', 0)], ttl = Some 1\<rparr>]
          (redisKey ''u''))) =
   [(''0.000000'', 0), (''0.001000'', unixSeconds 1000000)]"
  "zadd_entries \<lparr>Score = unixSeconds 2000000000, Member = sprintf_f (unixSeconds 2000000000)\<rparr>
     (filter (\<lambda>(m, sc). \<not> (strtod ''0'' \<le> sc \<and>
        sc \<le> strtod (sprintf_f (fsub (unixSeconds 2000000000)
                 (Seconds (window (setupRedis\<lparr>limit := 1\<rparr>)))))))
       (zset [redisKey ''u'' \<mapsto> \<lparr>entries = [(''0.000000'', 0)], ttl = Some 1\<rparr>]
          (redisKey ''u''))) =
   [(''2.000000'', 2)]"
  by (simp_all add: store_values unixSeconds_values Seconds_values fsub_values
      sprintf_f_values strtod_values zadd_entries_def)

theorem token_bucket_shared_decision_witness:
  "\<not> local_backend (setupRedis\<lparr>limit := 1\<rparr>) \<and>
   fst (acquireTokenBucket (setupRedis\<lparr>limit := 1\<rparr>)
     [redisKey ''u'' \<mapsto> \<lparr>entries = [(''0.000000'', 0)], ttl = Some 1\<rparr>]
     1000000 ExecOk ''u'') = Response False (Some ''rate limit exceeded'') \<and>
   map fst (zset (snd (snd (acquireTokenBucket (setupRedis\<lparr>limit := 1\<rparr>)
     [redisKey ''u'' \<mapsto> \<lparr>entries = [(''0.000000'', 0)], ttl = Some 1\<rparr>]
     1000000 ExecOk ''u''))) (redisKey ''u'')) = [''0.000000'', ''0.001000''] \<and>
   fst (acquireTokenBucket (setupRedis\<lparr>limit := 1\<rparr>)
     [redisKey ''u'' \<mapsto> \<lparr>entries = [(''0.000000'', 0)], ttl = Some 1\<rparr>]
     2000000000 ExecOk ''u'') = Response True None \<and>
   zset (snd (snd (acquireTokenBucket (setupRedis\<lparr>limit := 1\<rparr>)
     [redisKey ''u'' \<mapsto> \<lparr>entries = [(''0.000000'', 0)], ttl = Some 1\<rparr>]
     2000000000 ExecOk ''u''))) (redisKey ''u'') = [(''2.000000'', 2)] \<and>
   fst (acquireTokenBucket (setupRedis\<lparr>limit := 1\<rparr>)
     [redisKey ''u'' \<mapsto> \<lparr>entries = [(''0.000000'', 0)], ttl = Some 1\<rparr>]
     1000000 ReplyLost ''u'') = Response False (Some ''redis error'')"
proof -
  let ?s = "setupRedis\<lparr>limit := 1\<rparr>"
  let ?db = "[redisKey ''u'' \<mapsto> \<lparr>entries = [(''0.000000'', 0)], ttl = Some 1\<rparr>]"
  note l = store_values(2)
  have a: "fst (acquireTokenBucket ?s ?db 1000000 ExecOk ''u'') =
        Response False (Some ''rate limit exceeded'') \<and>
      map fst (zset (snd (snd (acquireTokenBucket ?s ?db 1000000 ExecOk ''u''))) (redisKey ''u''))
        = [''0.000000'', ''0.001000'']"
    using token_bucket_shared_decision [OF l, where db = ?db and now = 1000000
        and ex = ExecOk and key = "''u''", unfolded Let_def after_values]
    by (cases "acquireTokenBucket ?s ?db 1000000 ExecOk ''u''")
      (simp add: store_values(3-5))
  have b: "fst (acquireTokenBucket ?s ?db 2000000000 ExecOk ''u'') = Response True None \<and>
      zset (snd (snd (acquireTokenBucket ?s ?db 2000000000 ExecOk ''u''))) (redisKey ''u'')
        = [(''2.000000'', 2)]"
    using token_bucket_shared_decision [OF l, where db = ?db and now = 2000000000
        and ex = ExecOk and key = "''u''", unfolded Let_def after_values]
    by (cases "acquireTokenBucket ?s ?db 2000000000 ExecOk ''u''")
      (simp add: store_values(3-5))
  have c: "fst (acquireTokenBucket ?s ?db 1000000 ReplyLost ''u'') =
      Response False (Some ''redis error'')"
    using token_bucket_shared_decision [OF l, where db = ?db and now = 1000000
        and ex = ReplyLost and key = "''u''", unfolded Let_def]
    by (cases "acquireTokenBucket ?s ?db 1000000 ReplyLost ''u''") simp
  from l a b c show ?thesis by simp
qed

text \<open>
  With a limit of 1 and a window of one second, three calls at 0 ms, 1 ms and 2 ms leave
  three entries in the key's set: more than the limit plus one.
\<close>

theorem shared_set_exceeds_limit_plus_one:
  "\<not> int (length (zset (snd (snd (tb_run (setupRedis\<lparr>limit := 1\<rparr>) Map.empty
        [(''u'', 0), (''u'', 1000000), (''u'', 2000000)]))) (redisKey ''u'')))
      \<le> getLimitForKey (setupRedis\<lparr>limit := 1\<rparr>) ''u'' + 1"
  by (simp add: shared_eval)

section \<open>The member of an inserted entry\<close>

text \<open>
  C8, as the code has it. An acquire on the shared backend whose transaction runs
  inserts the entry whose score is \<open>now\<close> in float64 seconds and whose member is the
  text of that score with six decimals, so the member depends on the instant alone:
  after the call the key's set holds that entry and, of the entries that were not
  removed as expired, those with another member. An entry already there with the same
  member, as a call at the same instant has left it, is replaced, not joined.
\<close>

theorem shared_member_is_timestamp_text:
  "\<not> local_backend s \<and> ex \<noteq> ExecErr \<and> 0 < formatSec (window s) \<longrightarrow>
     set (zset (snd (snd (acquireTokenBucket s db now ex key))) (redisKey key)) =
       insert (sprintf_f (unixSeconds now), unixSeconds now)
         {e \<in> set (zset db (redisKey key)).
            \<not> (strtod ''0'' \<le> snd e \<and>
               snd e \<le> strtod (sprintf_f (fsub (unixSeconds now) (Seconds (window s))))) \<and>
            fst e \<noteq> sprintf_f (unixSeconds now)}"
proof (intro impI, elim conjE)
  assume a: "\<not> local_backend s" "ex \<noteq> ExecErr" "0 < formatSec (window s)"
  have "{e \<in> set (zset db (redisKey key)).
          (case e of (m, sc) \<Rightarrow> \<not> (strtod ''0'' \<le> sc \<and>
             sc \<le> strtod (sprintf_f (fsub (unixSeconds now) (Seconds (window s)))))) \<and>
          fst e \<noteq> sprintf_f (unixSeconds now)} =
        {e \<in> set (zset db (redisKey key)).
          \<not> (strtod ''0'' \<le> snd e \<and>
             snd e \<le> strtod (sprintf_f (fsub (unixSeconds now) (Seconds (window s))))) \<and>
          fst e \<noteq> sprintf_f (unixSeconds now)}"
    by auto
  with a show "set (zset (snd (snd (acquireTokenBucket s db now ex key))) (redisKey key)) =
       insert (sprintf_f (unixSeconds now), unixSeconds now)
         {e \<in> set (zset db (redisKey key)).
            \<not> (strtod ''0'' \<le> snd e \<and>
               snd e \<le> strtod (sprintf_f (fsub (unixSeconds now) (Seconds (window s))))) \<and>
            fst e \<noteq> sprintf_f (unixSeconds now)}"
    unfolding acquireTokenBucket_shared [OF a(1)] Let_def
    by (simp add: zset_Expire zset_ZAdd zset_ZRem set_zadd_entries)
qed

lemma kept_values:
  "{e \<in> set (zset [redisKey ''u'' \<mapsto> \<lparr>entries = [(''0.000000'', 0)], ttl = Some 1\<rparr>]
               (redisKey ''u'')).
      \<not> (strtod ''0'' \<le> snd e \<and>
         snd e \<le> strtod (sprintf_f (fsub (unixSeconds 1000000)
                    (Seconds (window (setupRedis\<lparr>limit := 1\<rparr>)))))) \<and>
      fst e \<noteq> sprintf_f (unixSeconds 1000000)} = {(''0.000000'', 0)}"
  "{e \<in> set (zset [redisKey ''u'' \<mapsto> \<lparr>entries = [(''0.000000'', 0)], ttl = Some 1\<rparr>]
               (redisKey ''u'')).
      \<not> (strtod ''0'' \<le> snd e \<and>
         snd e \<le> strtod (sprintf_f (fsub (unixSeconds 0)
                    (Seconds (window (setupRedis\<lparr>limit := 1\<rparr>)))))) \<and>
      fst e \<noteq> sprintf_f (unixSeconds 0)} = {}"
  by (auto simp: store_values unixSeconds_values Seconds_values fsub_values
      sprintf_f_values strtod_values)

theorem shared_member_is_timestamp_text_witness:
  "\<not> local_backend (setupRedis\<lparr>limit := 1\<rparr>) \<and>
   0 < formatSec (window (setupRedis\<lparr>limit := 1\<rparr>)) \<and>
   set (zset (snd (snd (acquireTokenBucket (setupRedis\<lparr>limit := 1\<rparr>)
     [redisKey ''u'' \<mapsto> \<lparr>entries = [(''0.000000'', 0)], ttl = Some 1\<rparr>]
     1000000 ExecOk ''u''))) (redisKey ''u'')) =
     {(''0.000000'', 0), (''0.001000'', unixSeconds 1000000)} \<and>
   set (zset (snd (snd (acquireTokenBucket (setupRedis\<lparr>limit := 1\<rparr>)
     [redisKey ''u'' \<mapsto> \<lparr>entries = [(''0.000000'', 0)], ttl = Some 1\<rparr>]
     0 ExecOk ''u''))) (redisKey ''u'')) = {(''0.000000'', unixSeconds 0)}"
proof -
  let ?s = "setupRedis\<lparr>limit := 1\<rparr>"
  let ?db = "[redisKey ''u'' \<mapsto> \<lparr>entries = [(''0.000000'', 0)], ttl = Some 1\<rparr>]"
  have h: "\<not> local_backend ?s \<and> ExecOk \<noteq> ExecErr \<and> 0 < formatSec (window ?s)"
    by (simp add: store_values)
  have a: "set (zset (snd (snd (acquireTokenBucket ?s ?db 1000000 ExecOk ''u''))) (redisKey ''u''))
      = {(''0.000000'', 0), (''0.001000'', unixSeconds 1000000)}"
    using shared_member_is_timestamp_text [where s = ?s and ex = ExecOk and db = ?db
        and now = 1000000 and key = "''u''", THEN mp, OF h, unfolded kept_values]
    by (simp add: sprintf_f_values unixSeconds_values insert_commute)
  have b: "set (zset (snd (snd (acquireTokenBucket ?s ?db 0 ExecOk ''u''))) (redisKey ''u''))
      = {(''0.000000'', unixSeconds 0)}"
    using shared_member_is_timestamp_text [where s = ?s and ex = ExecOk and db = ?db
        and now = 0 and key = "''u''", THEN mp, OF h, unfolded kept_values]
    by (simp add: sprintf_f_values unixSeconds_values)
  from h a b show ?thesis by simp
qed

text \<open>
  With a limit of 1, two calls at the same instant, and two calls 400 nanoseconds apart,
  insert the same member: the set holds one entry after both, and both are allowed.
\<close>

theorem shared_member_not_unique:
  "map fst (zset (snd (snd (tb_run (setupRedis\<lparr>limit := 1\<rparr>) Map.empty
     [(''u'', 1000), (''u'', 1000)]))) (redisKey ''u'')) = [''0.000001''] \<and>
   map allowed (fst (tb_run (setupRedis\<lparr>limit := 1\<rparr>) Map.empty
     [(''u'', 1000), (''u'', 1000)])) = [True, True] \<and>
   map fst (zset (snd (snd (tb_run (setupRedis\<lparr>limit := 1\<rparr>) Map.empty
     [(''u'', 1000), (''u'', 1400)]))) (redisKey ''u'')) = [''0.000001''] \<and>
   map allowed (fst (tb_run (setupRedis\<lparr>limit := 1\<rparr>) Map.empty
     [(''u'', 1000), (''u'', 1400)])) = [True, True]"
  by (simp add: shared_eval)

section \<open>Sequences of acquires on the local backend\<close>

lemma tb_local_step:
  assumes "local_backend s" "acquireTokenBucket s db now ex key = (r, s', db')"
  shows "local_backend s'" "window s' = window s" "getLimitForKey s' k = getLimitForKey s k"
    "db' = db"
    "k \<noteq> key \<Longrightarrow> history s' k = history s k"
    "getLimitForKey s key \<le> int (length (recent (window s) now (history s key))) \<Longrightarrow>
       \<not> allowed r \<and> history s' key = history s key"
    "\<not> getLimitForKey s key \<le> int (length (recent (window s) now (history s key))) \<Longrightarrow>
       allowed r \<and> history s' key = recent (window s) now (history s key) @ [now]"
  using assms(2) unfolding acquireTokenBucket_local [OF assms(1)]
  using assms(1)
  by (auto simp: local_backend_def getLimitForKey_def history_def LoadOrStore_def
      split: if_splits option.splits)

lemma allowed_times_subset: "set (allowed_times k evs rs) \<subseteq> snd ` set evs"
  by (induction k evs rs rule: allowed_times.induct) auto

lemma count_between_0: "\<forall>t\<in>set ts. b \<le> t \<Longrightarrow> count_between a b ts = 0"
  by (auto simp: count_between_def filter_empty_conv)

lemma recent_keeps:
  assumes "\<forall>t\<in>set h. t \<le> now" "now < a + w"
  shows "filter (\<lambda>t. a \<le> t) (recent w now h) = filter (\<lambda>t. a \<le> t) h"
proof -
  have "a \<le> t \<Longrightarrow> Sub now t < w" if "t \<in> set h" for t
    using Sub_le_diff [of t now] assms that by fastforce
  then show ?thesis
    unfolding recent_def filter_filter by (intro filter_cong) auto
qed

lemma tb_bound_aux:
  assumes "local_backend s" "sorted (map snd evs)"
    "\<forall>t\<in>set (history s k). \<forall>e\<in>set evs. t \<le> snd e"
    "length (filter (\<lambda>t. a \<le> t) (history s k)) \<le> nat (getLimitForKey s k)"
  shows "length (filter (\<lambda>t. a \<le> t) (history s k)) +
           count_between a (a + window s) (allowed_times k evs (fst (tb_run s db evs)))
         \<le> nat (getLimitForKey s k)"
  using assms
proof (induction evs arbitrary: s db)
  case Nil
  then show ?case by (simp add: count_between_def)
next
  case (Cons e evs)
  obtain key now where e: "e = (key, now)" by (cases e)
  obtain r s' db' where step: "acquireTokenBucket s db now ExecOk key = (r, s', db')"
    by (cases "acquireTokenBucket s db now ExecOk key")
  note st = tb_local_step [OF Cons.prems(1) step]
  let ?h = "history s k" and ?h' = "history s' k"
  let ?rs = "fst (tb_run s' db' evs)"
  let ?F' = "count_between a (a + window s) (allowed_times k evs ?rs)"
  have run: "fst (tb_run s db (e # evs)) = r # ?rs"
    by (simp add: e step split: prod.splits)
  have sorted': "sorted (map snd evs)" and later: "\<forall>e'\<in>set evs. now \<le> snd e'"
    using Cons.prems(2) by (auto simp: e)
  have h_le: "\<forall>t\<in>set ?h. t \<le> now"
    using Cons.prems(3) by (simp add: e)
  have h_later: "\<forall>t\<in>set ?h. \<forall>e'\<in>set evs. t \<le> snd e'"
    using Cons.prems(3) by simp
  show ?case
  proof (cases "key = k \<and> allowed r")
    case False
    then have same: "?h' = ?h"
      using st(5) [of k] st(6,7) by (cases "key = k") auto
    from False have at: "allowed_times k (e # evs) (r # ?rs) = allowed_times k evs ?rs"
      by (auto simp: e)
    have "length (filter (\<lambda>t. a \<le> t) ?h') + count_between a (a + window s')
        (allowed_times k evs (fst (tb_run s' db' evs))) \<le> nat (getLimitForKey s' k)"
      using Cons.prems(4) h_later
      by (intro Cons.IH st(1) sorted') (simp_all add: same st(3))
    then show ?thesis
      by (simp add: run at same st(2,3))
  next
    case True
    then have k: "key = k" and ar: "allowed r" by simp_all
    have nd: "\<not> getLimitForKey s k \<le> int (length (recent (window s) now ?h))"
      using st(6) ar k by auto
    then have h': "?h' = recent (window s) now ?h @ [now]"
      using st(7) k by simp
    have at: "allowed_times k (e # evs) (r # ?rs) = now # allowed_times k evs ?rs"
      using True by (simp add: e)
    have h'_later: "\<forall>t\<in>set ?h'. \<forall>e'\<in>set evs. t \<le> snd e'"
      using h_later later by (auto simp: h' recent_def)
    consider "now < a" | "a \<le> now" "now < a + window s" | "a + window s \<le> now"
      by linarith
    then show ?thesis
    proof cases
      case 1
      then have e0: "filter (\<lambda>t. a \<le> t) ?h = []" "filter (\<lambda>t. a \<le> t) ?h' = []"
        using h_le by (auto simp: filter_empty_conv h' recent_def)
      have "length (filter (\<lambda>t. a \<le> t) ?h') + count_between a (a + window s')
          (allowed_times k evs (fst (tb_run s' db' evs))) \<le> nat (getLimitForKey s' k)"
        using h'_later by (intro Cons.IH st(1) sorted') (simp_all add: e0)
      with 1 show ?thesis
        by (simp add: run at e0 st(2,3) count_between_def)
    next
      case 2
      have keep: "filter (\<lambda>t. a \<le> t) (recent (window s) now ?h) = filter (\<lambda>t. a \<le> t) ?h"
        using h_le 2(2) by (rule recent_keeps)
      have f': "filter (\<lambda>t. a \<le> t) ?h' = filter (\<lambda>t. a \<le> t) ?h @ [now]"
        using 2(1) by (simp add: h' keep)
      have "length (filter (\<lambda>t. a \<le> t) ?h) \<le> length (recent (window s) now ?h)"
        unfolding keep [symmetric] by (rule length_filter_le)
      with nd have le: "length (filter (\<lambda>t. a \<le> t) ?h') \<le> nat (getLimitForKey s k)"
        by (simp add: f')
      have "length (filter (\<lambda>t. a \<le> t) ?h') + count_between a (a + window s')
          (allowed_times k evs (fst (tb_run s' db' evs))) \<le> nat (getLimitForKey s' k)"
        using h'_later le by (intro Cons.IH st(1) sorted') (simp_all add: st(3))
      with 2 show ?thesis
        by (simp add: run at f' st(2,3) count_between_def)
    next
      case 3
      have "\<forall>t\<in>set (now # allowed_times k evs ?rs). a + window s \<le> t"
        using 3 later allowed_times_subset [of k evs ?rs] by fastforce
      then have "count_between a (a + window s) (now # allowed_times k evs ?rs) = 0"
        by (rule count_between_0)
      with Cons.prems(4) show ?thesis
        by (simp add: run at)
    qed
  qed
qed

lemma acquireLeakyBucket_eq:
  assumes "getLimitForKey s key \<noteq> 0"
  shows "acquireLeakyBucket s now key =
     (if recent (window s) now (history s key) = [] \<or>
         quo (window s) (getLimitForKey s key) \<le>
           Sub now (last (recent (window s) now (history s key)))
      then Inr (Response True None,
                s\<lparr>userCalls := (userCalls s)(key \<mapsto> recent (window s) now (history s key) @ [now]),
                  successfulAcquires := incr64 (successfulAcquires s)\<rparr>)
      else Inr (Response False (Some ''leaky bucket: rate limit exceeded''),
                s\<lparr>userCalls := snd (LoadOrStore (userCalls s) key []),
                  failedAcquires := incr64 (failedAcquires s)\<rparr>))"
  using assms
  by (auto simp: acquireLeakyBucket_def Let_def history_def LoadOrStore_def
      split: option.splits prod.splits)

lemma getLimitForKey_frame:
  "getLimitForKey (s\<lparr>userCalls := u, successfulAcquires := c\<rparr>) k = getLimitForKey s k"
  "getLimitForKey (s\<lparr>userCalls := u, failedAcquires := c\<rparr>) k = getLimitForKey s k"
  by (simp_all add: getLimitForKey_def split: option.splits)

lemma history_store:
  "history (s\<lparr>userCalls := (userCalls s)(key \<mapsto> v), successfulAcquires := c\<rparr>) k =
     (if k = key then v else history s k)"
  by (simp add: history_def)

lemma lb_step:
  assumes "getLimitForKey s key \<noteq> 0"
  obtains r s' where "acquireLeakyBucket s now key = Inr (r, s')"
    "window s' = window s" "\<And>k. getLimitForKey s' k = getLimitForKey s k"
    "\<And>k. k \<noteq> key \<Longrightarrow> history s' k = history s k"
    "recent (window s) now (history s key) \<noteq> [] \<and>
       Sub now (last (recent (window s) now (history s key))) <
         quo (window s) (getLimitForKey s key) \<Longrightarrow>
     r = Response False (Some ''leaky bucket: rate limit exceeded'') \<and>
     history s' key = history s key"
    "\<not> (recent (window s) now (history s key) \<noteq> [] \<and>
       Sub now (last (recent (window s) now (history s key))) <
         quo (window s) (getLimitForKey s key)) \<Longrightarrow>
     r = Response True None \<and>
     history s' key = recent (window s) now (history s key) @ [now]"
proof (cases "recent (window s) now (history s key) = [] \<or>
         quo (window s) (getLimitForKey s key) \<le>
           Sub now (last (recent (window s) now (history s key)))")
  case True
  show ?thesis
  proof (rule that)
    show "acquireLeakyBucket s now key = Inr (Response True None,
                s\<lparr>userCalls := (userCalls s)(key \<mapsto> recent (window s) now (history s key) @ [now]),
                  successfulAcquires := incr64 (successfulAcquires s)\<rparr>)"
      using True by (simp add: acquireLeakyBucket_eq [OF assms])
  qed (use True in \<open>auto simp: getLimitForKey_frame history_store\<close>)
next
  case False
  show ?thesis
  proof (rule that)
    show "acquireLeakyBucket s now key = Inr (Response False (Some ''leaky bucket: rate limit exceeded''),
                s\<lparr>userCalls := snd (LoadOrStore (userCalls s) key []),
                  failedAcquires := incr64 (failedAcquires s)\<rparr>)"
      using False by (simp add: acquireLeakyBucket_eq [OF assms])
  qed (use False in \<open>auto simp: getLimitForKey_frame history_LoadOrStore\<close>)
qed

lemma quo_le:
  assumes "0 < l" "0 \<le> d" "w \<le> d"
  shows "quo w l \<le> d"
proof (cases "0 \<le> w")
  case True
  then have "quo w l = w div l"
    using assms(1) by (cases "w = 0") (auto simp: quo_def minDuration_def)
  also have "\<dots> \<le> w" using True assms(1) zdiv_mono2 [of w 1 l] by simp
  finally show ?thesis using assms(3) by simp
next
  case False
  then have "quo w l = - (\<bar>w\<bar> div l)" using assms(1) by (auto simp: quo_def)
  moreover have "0 \<le> \<bar>w\<bar> div l" using assms(1) by (simp add: pos_imp_zdiv_nonneg_iff)
  ultimately show ?thesis using assms(2) by simp
qed

lemma sorted_le_last:
  assumes "sorted h" "t \<in> set h"
  shows "t \<le> last h"
proof -
  from assms(2) obtain i where i: "i < length h" "h ! i = t"
    by (auto simp: in_set_conv_nth)
  then have "h \<noteq> []" by auto
  then have "last h = h ! (length h - 1)" by (rule last_conv_nth)
  moreover have "h ! i \<le> h ! (length h - 1)"
    using assms(1) i(1) by (intro sorted_nth_mono) auto
  ultimately show ?thesis using i(2) by simp
qed

lemma last_filter_keep:
  assumes "xs \<noteq> []" "P (last xs)"
  shows "last (filter P xs) = last xs"
  using assms by (induction xs) (auto simp: filter_empty_conv)

lemma last_recent:
  assumes "sorted h" "recent w now h \<noteq> []"
  shows "last (recent w now h) = last h"
proof -
  from assms(2) obtain t where t: "t \<in> set h" "Sub now t < w"
    by (auto simp: recent_def filter_empty_conv)
  then have ne: "h \<noteq> []" by auto
  have "t \<le> last h"
    using assms(1) t(1) by (rule sorted_le_last)
  then have "Sub now (last h) < w"
    using Sub_antimono [of t "last h" now] t(2) by simp
  then show ?thesis
    unfolding recent_def using ne by (simp add: last_filter_keep)
qed


lemma lb_spaced_aux:
  assumes "0 < getLimitForKey s k" "\<forall>e\<in>set evs. getLimitForKey s (fst e) \<noteq> 0"
    "sorted (map snd evs)" "sorted (history s k)"
    "\<forall>t\<in>set (history s k). \<forall>e\<in>set evs. t \<le> snd e"
  shows "\<exists>rs s'. lb_run s evs = Inr (rs, s') \<and>
     spaced (quo (window s) (getLimitForKey s k))
       ((if history s k = [] then [] else [last (history s k)]) @ allowed_times k evs rs)"
  using assms
proof (induction evs arbitrary: s)
  case Nil
  then show ?case by simp
next
  case (Cons e evs)
  obtain key now where e: "e = (key, now)" by (cases e)
  let ?h = "history s k"
  let ?d = "quo (window s) (getLimitForKey s k)"
  have nz: "getLimitForKey s key \<noteq> 0" using Cons.prems(2) by (simp add: e)
  obtain r s1 where st: "acquireLeakyBucket s now key = Inr (r, s1)"
    "window s1 = window s" "\<And>k. getLimitForKey s1 k = getLimitForKey s k"
    "\<And>k. k \<noteq> key \<Longrightarrow> history s1 k = history s k"
    "recent (window s) now (history s key) \<noteq> [] \<and>
       Sub now (last (recent (window s) now (history s key))) <
         quo (window s) (getLimitForKey s key) \<Longrightarrow>
     r = Response False (Some ''leaky bucket: rate limit exceeded'') \<and>
     history s1 key = history s key"
    "\<not> (recent (window s) now (history s key) \<noteq> [] \<and>
       Sub now (last (recent (window s) now (history s key))) <
         quo (window s) (getLimitForKey s key)) \<Longrightarrow>
     r = Response True None \<and>
     history s1 key = recent (window s) now (history s key) @ [now]"
    using lb_step [OF nz, of now] by metis
  have later: "\<forall>e'\<in>set evs. now \<le> snd e'" and sorted': "sorted (map snd evs)"
    using Cons.prems(3) by (auto simp: e)
  have h_le: "\<forall>t\<in>set ?h. t \<le> now" and h_later: "\<forall>t\<in>set ?h. \<forall>e'\<in>set evs. t \<le> snd e'"
    using Cons.prems(5) by (simp_all add: e)
  have h1_cases: "history s1 k = ?h \<or> history s1 k = recent (window s) now ?h @ [now]"
    using st(4) [of k] st(5,6) by (cases "key = k") auto
  have sorted_h1: "sorted (history s1 k)"
    using h1_cases Cons.prems(4) h_le
    by (auto simp: sorted_append recent_def intro: sorted_wrt_filter)
  have h1_later: "\<forall>t\<in>set (history s1 k). \<forall>e'\<in>set evs. t \<le> snd e'"
  proof (intro ballI)
    fix t e'
    assume t: "t \<in> set (history s1 k)" and e': "e' \<in> set evs"
    from t have "t \<in> set ?h \<or> t = now"
      using h1_cases by (auto simp: recent_def)
    then show "t \<le> snd e'"
      using h_later later e' by blast
  qed
  have "\<exists>rs s'. lb_run s1 evs = Inr (rs, s') \<and>
     spaced (quo (window s1) (getLimitForKey s1 k))
       ((if history s1 k = [] then [] else [last (history s1 k)]) @ allowed_times k evs rs)"
    using Cons.prems(1,2) sorted' sorted_h1 h1_later
    by (intro Cons.IH) (simp_all add: st(3))
  then obtain rs s' where run: "lb_run s1 evs = Inr (rs, s')"
    and sp: "spaced ?d
       ((if history s1 k = [] then [] else [last (history s1 k)]) @ allowed_times k evs rs)"
    by (auto simp: st(2,3))
  have run': "lb_run s (e # evs) = Inr (r # rs, s')"
    by (simp add: e st(1) run)
  have "spaced ?d ((if ?h = [] then [] else [last ?h]) @ allowed_times k (e # evs) (r # rs))"
  proof (cases "key = k \<and> allowed r")
    case False
    then have eq: "history s1 k = ?h"
      using st(4) [of k] st(5,6)
      by (cases "key = k";
          cases "recent (window s) now (history s key) \<noteq> [] \<and>
            Sub now (last (recent (window s) now (history s key))) <
              quo (window s) (getLimitForKey s key)") auto
    from False have at: "allowed_times k (e # evs) (r # rs) = allowed_times k evs rs"
      by (auto simp: e)
    show ?thesis using sp by (simp only: eq at)
  next
    case True
    then have k: "key = k" and ar: "allowed r" by simp_all
    have nd: "\<not> (recent (window s) now ?h \<noteq> [] \<and>
       Sub now (last (recent (window s) now ?h)) < ?d)"
      using st(5) ar k by auto
    then have h1: "history s1 k = recent (window s) now ?h @ [now]"
      using st(6) k by simp
    have at: "allowed_times k (e # evs) (r # rs) = now # allowed_times k evs rs"
      using True by (simp add: e)
    from sp have sp': "spaced ?d (now # allowed_times k evs rs)"
      by (simp add: h1)
    show ?thesis
    proof (cases "?h = []")
      case True
      then show ?thesis using sp' by (simp add: at)
    next
      case False
      then have lh: "last ?h \<in> set ?h" by simp
      then have le: "last ?h \<le> now" using h_le by blast
      have "?d \<le> now - last ?h"
      proof (cases "recent (window s) now ?h = []")
        case True
        then have "\<not> Sub now (last ?h) < window s"
          using lh by (auto simp: recent_def filter_empty_conv)
        then have "window s \<le> now - last ?h"
          using Sub_le_diff [OF le] by simp
        with Cons.prems(1) le show ?thesis
          by (intro quo_le) simp_all
      next
        case False
        with nd have "?d \<le> Sub now (last (recent (window s) now ?h))" by simp
        also have "\<dots> = Sub now (last ?h)"
          using last_recent [OF Cons.prems(4) False] by simp
        also have "\<dots> \<le> now - last ?h" using le by (rule Sub_le_diff)
        finally show ?thesis .
      qed
      with False sp' show ?thesis by (simp add: at)
    qed
  qed
  with run' show ?case by blast
qed

lemma tb_length_aux:
  assumes "local_backend s" "length (history s k) \<le> nat (getLimitForKey s k)"
  shows "length (history (fst (snd (tb_run s db evs))) k) \<le> nat (getLimitForKey s k)"
  using assms
proof (induction evs arbitrary: s db)
  case Nil
  then show ?case by simp
next
  case (Cons e evs)
  obtain key now where e: "e = (key, now)" by (cases e)
  obtain r s' db' where step: "acquireTokenBucket s db now ExecOk key = (r, s', db')"
    by (cases "acquireTokenBucket s db now ExecOk key")
  note st = tb_local_step [OF Cons.prems(1) step]
  have "length (history s' k) \<le> nat (getLimitForKey s' k)"
    using st(3) [of k] st(5) [of k] st(6,7) Cons.prems(2)
    by (cases "key = k";
        cases "getLimitForKey s key \<le> int (length (recent (window s) now (history s key)))")
      auto
  from Cons.IH [OF st(1) this, of db'] show ?case
    by (cases "tb_run s' db' evs") (simp add: e step st(3))
qed

section \<open>The sliding window bounds admissions\<close>

text \<open>
  C2. Take token-bucket acquires on the local backend, made one after the other for any
  keys at instants that do not decrease, from a state in which the key \<open>k\<close> has no
  history, its limit being \<open>L\<close> and the window \<open>W\<close>. Then at most \<open>L\<close> of the calls for
  \<open>k\<close> made at instants \<open>t\<close> with \<open>a \<le> t < a + W\<close> are allowed, whatever \<open>a\<close> is, and
  after every call the history stored for \<open>k\<close> has at most \<open>L\<close> entries.
\<close>

theorem sliding_window_admission_bound:
  assumes "local_backend s" "sorted (map snd evs)" "history s k = []"
  shows "count_between a (a + window s) (allowed_times k evs (fst (tb_run s db evs)))
           \<le> nat (getLimitForKey s k) \<and>
         length (history (fst (snd (tb_run s db (take n evs)))) k) \<le> nat (getLimitForKey s k)"
proof
  show "count_between a (a + window s) (allowed_times k evs (fst (tb_run s db evs)))
      \<le> nat (getLimitForKey s k)"
    using tb_bound_aux [OF assms(1,2), of k a db] assms(3) by simp
  show "length (history (fst (snd (tb_run s db (take n evs)))) k) \<le> nat (getLimitForKey s k)"
    using tb_length_aux [OF assms(1), of k db "take n evs"] assms(3) by simp
qed

theorem sliding_window_admission_bound_witness:
  "local_backend (test_service 2 1000000000) \<and>
   sorted (map snd [(''u'', 0), (''u'', 10000000), (''u'', 500000000), (''u'', 1100000000 :: int)]) \<and>
   history (test_service 2 1000000000) ''u'' = [] \<and>
   allowed_times ''u'' [(''u'', 0), (''u'', 10000000), (''u'', 500000000), (''u'', 1100000000)]
     (fst (tb_run (test_service 2 1000000000) Map.empty
        [(''u'', 0), (''u'', 10000000), (''u'', 500000000), (''u'', 1100000000)])) =
     [0, 10000000, 1100000000] \<and>
   count_between 0 (0 + window (test_service 2 1000000000))
     (allowed_times ''u'' [(''u'', 0), (''u'', 10000000), (''u'', 500000000), (''u'', 1100000000)]
        (fst (tb_run (test_service 2 1000000000) Map.empty
           [(''u'', 0), (''u'', 10000000), (''u'', 500000000), (''u'', 1100000000)])))
     \<le> nat (getLimitForKey (test_service 2 1000000000) ''u'') \<and>
   length (history (fst (snd (tb_run (test_service 2 1000000000) Map.empty
     (take 3 [(''u'', 0), (''u'', 10000000), (''u'', 500000000), (''u'', 1100000000)])))) ''u'')
     \<le> nat (getLimitForKey (test_service 2 1000000000) ''u'')"
proof -
  have h: "local_backend (test_service 2 1000000000)"
    "sorted (map snd [(''u'', 0), (''u'', 10000000), (''u'', 500000000), (''u'', 1100000000 :: int)])"
    "history (test_service 2 1000000000) ''u'' = []"
    by (simp_all add: local_backend_def test_service_def history_def)
  have a: "allowed_times ''u'' [(''u'', 0), (''u'', 10000000), (''u'', 500000000), (''u'', 1100000000)]
     (fst (tb_run (test_service 2 1000000000) Map.empty
        [(''u'', 0), (''u'', 10000000), (''u'', 500000000), (''u'', 1100000000)])) =
     [0, 10000000, 1100000000]"
    by (simp add: test_service_def acquireTokenBucket_def LoadOrStore_def recent_def Sub_def
        getLimitForKey_def maxDuration_def minDuration_def incr64_def)
  from h a sliding_window_admission_bound [OF h, of 0 Map.empty 3] show ?thesis
    by blast
qed

section \<open>The leaky bucket spaces admissions\<close>

text \<open>
  C3. Let the key \<open>k\<close> have a limit \<open>L > 0\<close>, and let the interval be the window divided
  by \<open>L\<close> as the code divides durations (whole nanoseconds, truncated). A leaky-bucket
  acquire for \<open>k\<close> does not panic; it is denied, and the history left as it was, when
  an entry is kept and \<open>now.Sub\<close> of the last kept entry is below the interval; with no
  kept entry, or the last one at least the interval back, it is allowed and \<open>now\<close> is
  appended to the kept entries. In a sequence of acquires made one after the other for
  keys whose limits are not zero, at instants that do not decrease, from a state in
  which \<open>k\<close> has no history, no call panics and any two consecutive allowed calls for
  \<open>k\<close> are at least the interval apart.
\<close>

theorem leaky_bucket_spacing:
  "(0 < getLimitForKey s0 k \<longrightarrow>
      (\<exists>r s1. acquireLeakyBucket s0 now k = Inr (r, s1) \<and>
         (if filter (\<lambda>t. Sub now t < window s0) (history s0 k) \<noteq> [] \<and>
             Sub now (last (filter (\<lambda>t. Sub now t < window s0) (history s0 k))) <
               quo (window s0) (getLimitForKey s0 k)
          then r = Response False (Some ''leaky bucket: rate limit exceeded'') \<and>
               history s1 k = history s0 k
          else r = Response True None \<and>
               history s1 k = filter (\<lambda>t. Sub now t < window s0) (history s0 k) @ [now]))) \<and>
   (0 < getLimitForKey s k \<and> (\<forall>e\<in>set evs. getLimitForKey s (fst e) \<noteq> 0) \<and>
    sorted (map snd evs) \<and> history s k = [] \<longrightarrow>
      (\<exists>rs s'. lb_run s evs = Inr (rs, s') \<and>
         spaced (quo (window s) (getLimitForKey s k)) (allowed_times k evs rs)))"
proof (intro conjI impI)
  assume "0 < getLimitForKey s0 k"
  then have nz: "getLimitForKey s0 k \<noteq> 0" by simp
  show "\<exists>r s1. acquireLeakyBucket s0 now k = Inr (r, s1) \<and>
         (if filter (\<lambda>t. Sub now t < window s0) (history s0 k) \<noteq> [] \<and>
             Sub now (last (filter (\<lambda>t. Sub now t < window s0) (history s0 k))) <
               quo (window s0) (getLimitForKey s0 k)
          then r = Response False (Some ''leaky bucket: rate limit exceeded'') \<and>
               history s1 k = history s0 k
          else r = Response True None \<and>
               history s1 k = filter (\<lambda>t. Sub now t < window s0) (history s0 k) @ [now])"
    by (rule lb_step [OF nz, of now]) (auto simp: recent_def)
next
  assume a: "0 < getLimitForKey s k \<and> (\<forall>e\<in>set evs. getLimitForKey s (fst e) \<noteq> 0) \<and>
    sorted (map snd evs) \<and> history s k = []"
  then have "\<exists>rs s'. lb_run s evs = Inr (rs, s') \<and>
     spaced (quo (window s) (getLimitForKey s k))
       ((if history s k = [] then [] else [last (history s k)]) @ allowed_times k evs rs)"
    by (intro lb_spaced_aux) simp_all
  with a show "\<exists>rs s'. lb_run s evs = Inr (rs, s') \<and>
         spaced (quo (window s) (getLimitForKey s k)) (allowed_times k evs rs)"
    by simp
qed

theorem leaky_bucket_spacing_witness:
  "0 < getLimitForKey (test_service 2 1000000000) ''u'' \<and>
   quo (window (test_service 2 1000000000)) (getLimitForKey (test_service 2 1000000000) ''u'') =
     500000000 \<and>
   (\<exists>r s1. acquireLeakyBucket (test_service 2 1000000000) 0 ''u'' = Inr (r, s1) \<and>
      r = Response True None \<and> history s1 ''u'' = [0]) \<and>
   (\<exists>rs s'. lb_run (test_service 2 1000000000)
        [(''u'', 0), (''u'', 100000000), (''u'', 500000000), (''u'', 600000000)] = Inr (rs, s') \<and>
      spaced 500000000
        (allowed_times ''u''
           [(''u'', 0), (''u'', 100000000), (''u'', 500000000), (''u'', 600000000)] rs)) \<and>
   map_sum id (map allowed \<circ> fst) (lb_run (test_service 2 1000000000)
     [(''u'', 0), (''u'', 100000000), (''u'', 500000000), (''u'', 600000000)]) =
     Inr [True, False, True, False]"
proof -
  let ?s = "test_service 2 1000000000"
  let ?evs = "[(''u'', 0), (''u'', 100000000), (''u'', 500000000), (''u'', 600000000 :: int)]"
  have g: "getLimitForKey ?s ''u'' = 2" "window ?s = 1000000000" "history ?s ''u'' = []"
    by (simp_all add: getLimitForKey_def test_service_def history_def)
  have q: "quo 1000000000 2 = 500000000"
    by (simp add: quo_def minDuration_def)
  have h: "0 < getLimitForKey ?s ''u'' \<and> (\<forall>e\<in>set ?evs. getLimitForKey ?s (fst e) \<noteq> 0) \<and>
      sorted (map snd ?evs) \<and> history ?s ''u'' = []"
    by (simp add: g)
  have r: "map_sum id (map allowed \<circ> fst) (lb_run ?s ?evs) = Inr [True, False, True, False]"
    by (simp add: test_service_def acquireLeakyBucket_def LoadOrStore_def recent_def Sub_def
        getLimitForKey_def maxDuration_def minDuration_def incr64_def quo_def)
  from leaky_bucket_spacing [of ?s "''u''" 0 ?s ?evs] h
  have "(\<exists>r s1. acquireLeakyBucket ?s 0 ''u'' = Inr (r, s1) \<and>
      r = Response True None \<and> history s1 ''u'' = [0]) \<and>
    (\<exists>rs s'. lb_run ?s ?evs = Inr (rs, s') \<and>
      spaced 500000000 (allowed_times ''u'' ?evs rs))"
    by (simp add: g q)
  with g q r show ?thesis by simp
qed

section \<open>The two backends at the edge of the window\<close>

text \<open>
  C7, on the code. With a limit of 1 and a window of one second, take a call at the
  instant 946684800007000000 ns and a second call exactly one window later, the key's
  set not having expired in between. The local backend allows both: at the second call
  the first is a full window old and is dropped. The shared backend allows the first and
  denies the second: the score of the first entry, float64(ns)/1e9, lies above the bound
  that the store reads from the six-decimal text of the window's start, so the entry is
  not removed and is counted. No call was denied before and the calls are sequential.
  The same holds with a window of half a second, whose key lives for a whole second,
  at 1793000000011000000 ns and one window later.
\<close>

theorem backends_differ_at_window_edge:
  "map allowed (fst (tb_run (setupRedis\<lparr>limit := 1, useRedis := False\<rparr>) Map.empty
     [(''u'', 946684800007000000), (''u'', 946684801007000000)])) = [True, True] \<and>
   map allowed (fst (tb_run (setupRedis\<lparr>limit := 1\<rparr>) Map.empty
     [(''u'', 946684800007000000), (''u'', 946684801007000000)])) = [True, False] \<and>
   map allowed (fst (tb_run (setupRedis\<lparr>limit := 1, window := 500000000, useRedis := False\<rparr>)
     Map.empty [(''u'', 1793000000011000000), (''u'', 1793000000511000000)])) = [True, True] \<and>
   map allowed (fst (tb_run (setupRedis\<lparr>limit := 1, window := 500000000\<rparr>)
     Map.empty [(''u'', 1793000000011000000), (''u'', 1793000000511000000)])) = [True, False] \<and>
   map_option ttl (snd (snd (tb_run (setupRedis\<lparr>limit := 1, window := 500000000\<rparr>)
     Map.empty [(''u'', 1793000000011000000)])) (redisKey ''u'')) = Some (Some 1)"
  by (simp add: shared_eval LoadOrStore_def recent_def Sub_def maxDuration_def)

end
